theory Spec2Isabelle
  imports
    Complex_Main
    "HOL-Library.Word"
    "HOL-Library.Signed_Division"
    "HOL-Library.AList"
    "HOL-Library.DAList"
    "HOL-Library.Multiset"
begin

section \<open>Data model\<close>

text \<open>
  The types \<open>RoomID\<close>, \<open>SessionID\<close> and \<open>VoteID\<close> are declared outside the files at hand.
  Identifiers are only compared, and a vote id is only compared with \<open>VoteID(0)\<close>.
\<close>

type_synonym RoomID = nat
type_synonym SessionID = string
type_synonym VoteID = nat
type_synonym ThingName = string

text \<open>
  A \<open>time.Time\<close> is an instant, in nanoseconds since the Unix epoch; a \<open>time.Duration\<close> is a
  number of nanoseconds.
\<close>

type_synonym Time = int
type_synonym Duration = int

type_synonym int64 = "64 word"

text \<open>
  A \<open>float64\<close> taken from a JSON number is only stored and copied by this program, apart
  from the conversion to \<open>int64\<close> below; it is identified with the real it denotes.
\<close>

type_synonym float64 = real

definition Minute :: Duration where
  "Minute = 60 * 1000000000"

definition INTERVAL :: Duration where
  "INTERVAL = 1 * Minute"

definition CACHE_EXPIRE :: Duration where
  "CACHE_EXPIRE = 3 * Minute"

definition After :: "Time \<Rightarrow> Time \<Rightarrow> bool" where
  "After t u = (u < t)"

definition Add :: "Time \<Rightarrow> Duration \<Rightarrow> Time" where
  "Add t d = t + d"

text \<open>\<open>t.Unix()\<close>: whole seconds since the epoch, as an \<open>int64\<close>.\<close>

definition Unix :: "Time \<Rightarrow> int64" where
  "Unix t = word_of_int (t div 1000000000)"

text \<open>
  \<open>VoteChoice\<close> is a string type whose three constants \<open>Hot\<close>, \<open>Comfort\<close> and \<open>Cold\<close> are
  declared outside the files at hand; they label the cases of one \<open>switch\<close>, so they are
  pairwise different. Any other string is an \<open>OtherChoice\<close>.
\<close>

datatype VoteChoice = Hot | Comfort | Cold | OtherChoice string

record SensorStatus =
  Temperature :: float64
  Humidity :: float64
  IsConnected :: bool
  lastUpdated :: int64
  expire :: Time

record RoomStatus =
  RoomID :: RoomID
  Sensors :: "SensorStatus list"
  Hot_count :: nat
  Comfort_count :: nat
  Cold_count :: nat

record MyVote =
  Vote_choice :: VoteChoice
  Timestamp :: int64

record Session =
  SessionID :: SessionID

record ThingWorxClient =
  URL :: string
  AppKey :: string

subsection \<open>Errors\<close>

datatype proxy_error = Etype | Enotfound

datatype error =
    ErrNoRows
  | SqlError string
  | HttpError string
  | ProxyError proxy_error

subsection \<open>The database\<close>

text \<open>
  The tables the statements of this program read and write: \<open>vote(vote_id, session_id,
  room_id, choice, timestamp)\<close>, \<open>session(session_id, expire)\<close> and
  \<open>thing(room_id, thing_name)\<close>. A statement either runs or the driver reports an error; which
  of the two happens is an input of the model (\<open>sql_fault\<close>).
\<close>

record vote_row =
  vote_id :: VoteID
  v_session_id :: SessionID
  v_room_id :: RoomID
  v_choice :: VoteChoice
  v_timestamp :: Time

record session_row =
  s_session_id :: SessionID
  s_expire :: Time

record database =
  vote_tbl :: "vote_row list"
  session_tbl :: "session_row list"
  thing_tbl :: "(RoomID \<times> ThingName) list"

type_synonym sql_fault = "string option"

subsection \<open>The manager and its transactions\<close>

text \<open>
  \<open>sensorCache\<close> is a \<open>map[RoomID]map[ThingName]SensorStatus\<close>. The inner map is a list of
  entries with distinct keys; the order of the list is the order in which \<open>range\<close> visits the
  entries. The read and the write of the cache each hold \<open>cacheLock\<close> from their first access
  to their last, so each is one step on the map.
\<close>

type_synonym room_cache = "(ThingName, SensorStatus) alist"

record RoomStatusManager =
  db :: database
  thingworx :: ThingWorxClient
  sensorCache :: "RoomID \<rightharpoonup> room_cache"

record RoomStatusTx =
  rsm :: RoomStatusManager
  tx :: database
  s :: "Session option"

section \<open>Reading the sensor cache\<close>

text \<open>
  The loop of \<open>getSensorStatusFromCache\<close>. Every iteration reads the clock; \<open>clk i\<close> is the
  value of the \<open>i\<close>-th call of \<open>time.Now()\<close>.
\<close>

fun range_cache ::
  "(nat \<Rightarrow> Time) \<Rightarrow> nat \<Rightarrow> (ThingName \<times> SensorStatus) list \<Rightarrow> SensorStatus list
    \<Rightarrow> SensorStatus list" where
  "range_cache clk i [] array = array"
| "range_cache clk i ((k, v) # rest) array =
     range_cache clk (Suc i) rest (if After (expire v) (clk i) then array @ [v] else array)"

definition getSensorStatusFromCache ::
  "RoomStatusManager \<Rightarrow> (nat \<Rightarrow> Time) \<Rightarrow> RoomID \<Rightarrow> SensorStatus list \<times> bool" where
  "getSensorStatusFromCache m clk rid =
     (case sensorCache m rid of
        Some cache \<Rightarrow>
          (let array = range_cache clk 0 (DAList.impl_of cache) []
           in (array, length array > 0))
      | None \<Rightarrow> ([], False))"

section \<open>The telemetry client\<close>

subsection \<open>Decoded JSON and the proxy library\<close>

text \<open>
  \<open>json.Unmarshal\<close> into an \<open>interface{}\<close> yields \<open>nil\<close>, a \<open>bool\<close>, a \<open>float64\<close>, a
  \<open>string\<close>, a slice or a \<open>map[string]interface{}\<close>; an object is given by its entries and
  looked up by key.
\<close>

datatype json =
    JNull
  | JBool bool
  | JNumber float64
  | JString string
  | JArray "json list"
  | JObject "(string \<times> json) list"

text \<open>
  The imported library \<open>go-dproxy\<close>: a proxy wraps a decoded value or carries the error of an
  earlier access; \<open>M\<close> selects a key of an object, \<open>A\<close> an index of an array, and \<open>Float64\<close>
  and \<open>Int64\<close> read a number.
\<close>

datatype Proxy = ValueProxy json | ErrorProxy proxy_error

definition New :: "json \<Rightarrow> Proxy" where
  "New v = ValueProxy v"

fun M :: "Proxy \<Rightarrow> string \<Rightarrow> Proxy" where
  "M (ValueProxy (JObject kvs)) k =
     (case map_of kvs k of Some n \<Rightarrow> ValueProxy n | None \<Rightarrow> ErrorProxy Enotfound)"
| "M (ValueProxy v) k = ErrorProxy Etype"
| "M (ErrorProxy e) k = ErrorProxy e"

fun A :: "Proxy \<Rightarrow> int \<Rightarrow> Proxy" where
  "A (ValueProxy (JArray a)) n =
     (if n < 0 \<or> int (length a) \<le> n then ErrorProxy Enotfound else ValueProxy (a ! nat n))"
| "A (ValueProxy v) n = ErrorProxy Etype"
| "A (ErrorProxy e) n = ErrorProxy e"

fun Float64 :: "Proxy \<Rightarrow> error + float64" where
  "Float64 (ValueProxy (JNumber x)) = Inr x"
| "Float64 (ValueProxy v) = Inl (ProxyError Etype)"
| "Float64 (ErrorProxy e) = Inl (ProxyError e)"

text \<open>
  The conversion \<open>int64(v)\<close> of a \<open>float64\<close> drops the fraction. Outside the range of
  \<open>int64\<close> the language leaves the result to the implementation; the smallest \<open>int64\<close>
  stands for it here (what amd64 produces).
\<close>

definition int64_of_float64 :: "float64 \<Rightarrow> int64" where
  "int64_of_float64 x =
     (let t = (if 0 \<le> x then \<lfloor>x\<rfloor> else \<lceil>x\<rceil>)
      in if - (2 ^ 63) \<le> t \<and> t < 2 ^ 63 then word_of_int t else word_of_int (- (2 ^ 63)))"

fun Int64 :: "Proxy \<Rightarrow> error + int64" where
  "Int64 (ValueProxy (JNumber x)) = Inr (int64_of_float64 x)"
| "Int64 (ValueProxy v) = Inl (ProxyError Etype)"
| "Int64 (ErrorProxy e) = Inl (ProxyError e)"

subsection \<open>The request\<close>

text \<open>
  What the network does with a GET of a URL: \<open>http.NewRequest\<close> rejects the URL,
  \<open>client.Do\<close> fails, or a response arrives. \<open>Body\<close> is what \<open>ioutil.ReadAll\<close> followed by
  \<open>json.Unmarshal\<close> leaves in \<open>v\<close>: \<open>Some\<close> of the decoded document, or \<open>None\<close> when the
  bytes read are not a JSON document and \<open>v\<close> stays \<open>nil\<close> (the source drops both errors).
\<close>

record http_response =
  StatusCode :: nat
  Body :: "json option"

datatype http_outcome =
    NewRequestFails string
  | DoFails string
  | Responds http_response

type_synonym network = "string \<Rightarrow> http_outcome"

text \<open>The URL that \<open>Properties\<close> builds in its first three statements.\<close>

definition properties_url :: "ThingWorxClient \<Rightarrow> ThingName \<Rightarrow> string" where
  "properties_url tw name =
     (let url = URL tw @ ''/Things/'' @ name @ ''/Properties/''
      in if AppKey tw \<noteq> [] then url @ ''?appKey='' @ AppKey tw else url)"

definition Properties :: "ThingWorxClient \<Rightarrow> network \<Rightarrow> ThingName \<Rightarrow> error + Proxy" where
  "Properties tw net name =
     (let url = properties_url tw name
      in case net url of
           NewRequestFails e \<Rightarrow> Inl (HttpError e)
         | DoFails e \<Rightarrow> Inl (HttpError e)
         | Responds res \<Rightarrow>
             Inr (A (M (New (case Body res of None \<Rightarrow> JNull | Some v \<Rightarrow> v)) ''rows'') 0))"

section \<open>Refreshing one sensor\<close>

text \<open>
  What one call of \<open>updateSensorStatus\<close> meets: the network, the clock read for the
  connection test and the clock read for the expiry.
\<close>

record fetch_env =
  net :: network
  now_connected :: Time
  now_expire :: Time

text \<open>
  The value of \<open>stat\<close> once its five fields are set. The absolute value is taken of the
  \<open>int64\<close> difference converted to \<open>float64\<close>; the conversion is monotone and exact on
  \<open>-60 .. 60\<close>, so the comparison with 60 is the comparison of the integers.
\<close>

text \<open>
  The quotient \<open>/\<close> of two \<open>int64\<close> truncates towards zero (the divisor of this program is
  the constant 1000).
\<close>

definition quo_int64 :: "int64 \<Rightarrow> int64 \<Rightarrow> int64" where
  "quo_int64 a b = word_of_int (sint a sdiv sint b)"

definition reading_stat :: "fetch_env \<Rightarrow> float64 \<Rightarrow> float64 \<Rightarrow> int64 \<Rightarrow> SensorStatus" where
  "reading_stat env temperature humidity ms =
     (let lu = quo_int64 ms 1000
      in \<lparr>Temperature = temperature,
          Humidity = humidity,
          IsConnected = (\<bar>sint (Unix (now_connected env) - lu)\<bar> \<le> 60),
          lastUpdated = lu,
          expire = Add (now_expire env) CACHE_EXPIRE\<rparr>)"

definition updateSensorStatus ::
  "fetch_env \<Rightarrow> RoomStatusManager \<Rightarrow> RoomID \<Rightarrow> ThingName
    \<Rightarrow> error option \<times> RoomStatusManager" where
  "updateSensorStatus env m rid thingName =
     (case Properties (thingworx m) (net env) thingName of
        Inl err \<Rightarrow> (Some err, m)
      | Inr prop \<Rightarrow>
     (case Float64 (M prop ''temperature'') of
        Inl err \<Rightarrow> (Some err, m)
      | Inr temperature \<Rightarrow>
     (case Float64 (M prop ''humidity'') of
        Inl err \<Rightarrow> (Some err, m)
      | Inr humidity \<Rightarrow>
     (case Int64 (M prop ''lastUpdated'') of
        Inl err \<Rightarrow> (Some err, m)
      | Inr ms \<Rightarrow>
          (let stat = reading_stat env temperature humidity ms
           in if \<not> IsConnected stat then (None, m)
              else
                (let inner = (case sensorCache m rid of
                                None \<Rightarrow> DAList.empty
                              | Some c \<Rightarrow> c)
                 in (None,
                     m\<lparr>sensorCache :=
                         (sensorCache m)(rid \<mapsto> DAList.update thingName stat inner)\<rparr>)))))))"

section \<open>Votes\<close>

definition QueryRow :: "sql_fault \<Rightarrow> 'a list \<Rightarrow> error + 'a" where
  "QueryRow flt rows =
     (case flt of
        Some e \<Rightarrow> Inl (SqlError e)
      | None \<Rightarrow> (case rows of [] \<Rightarrow> Inl ErrNoRows | r # _ \<Rightarrow> Inr r))"

text \<open>\<open>FROM vote WHERE session_id=? AND room_id=?\<close>\<close>

definition select_votes :: "database \<Rightarrow> SessionID \<Rightarrow> RoomID \<Rightarrow> vote_row list" where
  "select_votes d sid rid =
     filter (\<lambda>r. v_session_id r = sid \<and> v_room_id r = rid) (vote_tbl d)"

definition GetMyVote :: "sql_fault \<Rightarrow> RoomStatusTx \<Rightarrow> RoomID \<Rightarrow> error + MyVote option" where
  "GetMyVote flt rst rid =
     (case s rst of
        None \<Rightarrow> Inr None
      | Some sess \<Rightarrow>
          (case QueryRow flt (select_votes (tx rst) (SessionID sess) rid) of
             Inl err \<Rightarrow> (if err = ErrNoRows then Inr None else Inl err)
           | Inr r \<Rightarrow> Inr (Some \<lparr>Vote_choice = v_choice r, Timestamp = Unix (v_timestamp r)\<rparr>)))"

text \<open>
  \<open>SELECT vote.choice, count(vote.vote_id) FROM vote NATURAL JOIN session
  WHERE vote.room_id=? AND session.expire>=? GROUP BY vote.choice\<close>: the two tables share
  the column \<open>session_id\<close>; one row per choice that occurs among the joined rows.
\<close>

definition joined_votes :: "database \<Rightarrow> RoomID \<Rightarrow> Time \<Rightarrow> (vote_row \<times> session_row) list" where
  "joined_votes d rid now =
     filter (\<lambda>(v, se). v_session_id v = s_session_id se \<and> v_room_id v = rid \<and> now \<le> s_expire se)
       (List.product (vote_tbl d) (session_tbl d))"

definition count_by_choice :: "database \<Rightarrow> RoomID \<Rightarrow> Time \<Rightarrow> (VoteChoice \<times> nat) list" where
  "count_by_choice d rid now =
     (let j = joined_votes d rid now
      in map (\<lambda>c. (c, length (filter (\<lambda>(v, se). v_choice v = c) j)))
           (remdups (map (\<lambda>(v, se). v_choice v) j)))"

text \<open>
  A query that does not fail delivers its rows; the columns have the types of the variables
  they are scanned into, so \<open>rows.Scan\<close> succeeds on each of them.
\<close>

definition Query :: "sql_fault \<Rightarrow> 'a list \<Rightarrow> error + 'a list" where
  "Query flt rows = (case flt of Some e \<Rightarrow> Inl (SqlError e) | None \<Rightarrow> Inr rows)"

text \<open>The loop over the rows of the count, with its \<open>switch\<close>.\<close>

fun scan_counts :: "RoomStatus \<Rightarrow> (VoteChoice \<times> nat) list \<Rightarrow> RoomStatus" where
  "scan_counts rs [] = rs"
| "scan_counts rs ((choice, cnt) # rows) =
     scan_counts
       (case choice of
          Hot \<Rightarrow> rs\<lparr>Hot_count := cnt\<rparr>
        | Comfort \<Rightarrow> rs\<lparr>Comfort_count := cnt\<rparr>
        | Cold \<Rightarrow> rs\<lparr>Cold_count := cnt\<rparr>
        | OtherChoice _ \<Rightarrow> rs)
       rows"

text \<open>
  \<open>GetStatus\<close> reads the clock in the cache read (\<open>clk\<close>) and once more for the parameter
  of the query (\<open>now\<close>).
\<close>

definition GetStatus ::
  "(nat \<Rightarrow> Time) \<Rightarrow> Time \<Rightarrow> sql_fault \<Rightarrow> RoomStatusTx \<Rightarrow> RoomID \<Rightarrow> error + RoomStatus" where
  "GetStatus clk now flt rst rid =
     (let rs = \<lparr>RoomID = rid, Sensors = [], Hot_count = 0, Comfort_count = 0, Cold_count = 0\<rparr>;
          (sensors, ok) = getSensorStatusFromCache (rsm rst) clk rid;
          rs = rs\<lparr>Sensors := (if \<not> ok then [] else sensors)\<rparr>
      in case Query flt (count_by_choice (tx rst) rid now) of
           Inl err \<Rightarrow> Inl err
         | Inr rows \<Rightarrow> Inr (scan_counts rs rows))"

text \<open>
  The struct \<open>Vote\<close> is declared outside the files at hand; these are the fields the
  source uses. The zero \<open>time.Time\<close> is the first instant of year 1.
\<close>

definition zeroTime :: Time where
  "zeroTime = - 62135596800 * 1000000000"

record Vote =
  VoteID :: VoteID
  Vote_RoomID :: RoomID
  S :: Session
  Choice :: VoteChoice
  Vote_Timestamp :: Time

datatype 'a outcome = Panics string | Returns 'a

text \<open>
  \<open>RoomStatusTx.Vote\<close>. Its last step calls \<open>Vote.UpdateChoice\<close>, which is not among the
  files at hand: it is the parameter \<open>updateChoice\<close>, a function of the vote, the transaction
  and the choice that returns an \<open>error\<close> and the transaction's new content.
\<close>

definition Vote ::
  "(Vote \<Rightarrow> database \<Rightarrow> VoteChoice \<Rightarrow> error option \<times> database) \<Rightarrow> sql_fault
    \<Rightarrow> RoomStatusTx \<Rightarrow> RoomID \<Rightarrow> VoteChoice \<Rightarrow> (error option \<times> database) outcome" where
  "Vote updateChoice flt rst rid choice =
     (case s rst of
        None \<Rightarrow> Panics ''session must not nil''
      | Some sess \<Rightarrow>
          (let vote = \<lparr>VoteID = 0, Vote_RoomID = rid, S = sess,
                       Choice = OtherChoice [], Vote_Timestamp = zeroTime\<rparr>
           in case QueryRow flt (map vote_id (select_votes (tx rst) (SessionID sess) rid)) of
                Inl err \<Rightarrow>
                  (case err of
                     ErrNoRows \<Rightarrow> Returns (updateChoice (vote\<lparr>VoteID := 0\<rparr>) (tx rst) choice)
                   | _ \<Rightarrow> Returns (Some err, tx rst))
              | Inr vid \<Rightarrow> Returns (updateChoice (vote\<lparr>VoteID := vid\<rparr>) (tx rst) choice)))"

text \<open>
  Modelled from the spec: \<open>Vote.UpdateChoice\<close> is not among the files at hand. The spec
  says of the vote id that 0 means "not yet created", and of \<open>recordVote\<close> that with the id
  unset it "performs an insert, else performs an update of the choice/timestamp". The insert
  gives the new row an id that is not 0 and not in the table; the update changes the rows
  with the vote's id. \<open>flt\<close> is the fault of the statement and \<open>now\<close> the timestamp written.
\<close>

definition fresh_vote_id :: "vote_row list \<Rightarrow> VoteID" where
  "fresh_vote_id rows = Suc (fold max (map vote_id rows) 0)"

definition UpdateChoice ::
  "sql_fault \<Rightarrow> Time \<Rightarrow> Vote \<Rightarrow> database \<Rightarrow> VoteChoice \<Rightarrow> error option \<times> database" where
  "UpdateChoice flt now vote d choice =
     (case flt of
        Some e \<Rightarrow> (Some (SqlError e), d)
      | None \<Rightarrow>
          (if VoteID vote = 0
           then (None,
                 d\<lparr>vote_tbl := vote_tbl d @
                     [\<lparr>vote_id = fresh_vote_id (vote_tbl d),
                       v_session_id = SessionID (S vote),
                       v_room_id = Vote_RoomID vote,
                       v_choice = choice,
                       v_timestamp = now\<rparr>]\<rparr>)
           else (None,
                 d\<lparr>vote_tbl :=
                     map (\<lambda>r. if vote_id r = VoteID vote
                              then r\<lparr>v_choice := choice, v_timestamp := now\<rparr> else r)
                       (vote_tbl d)\<rparr>)))"

section \<open>The refresh loop\<close>

text \<open>
  \<open>cleanUpExpiredSessions\<close>: \<open>DELETE FROM session WHERE expire<?\<close> between \<open>Begin\<close> and
  \<open>Commit\<close>; when one of the three fails the deferred rollback leaves the table as it was.
\<close>

record cleanup_env =
  cu_begin_fault :: sql_fault
  cu_exec_fault :: sql_fault
  cu_commit_fault :: sql_fault
  cu_now :: Time

definition cleanUpExpiredSessions ::
  "cleanup_env \<Rightarrow> RoomStatusManager \<Rightarrow> error option \<times> RoomStatusManager" where
  "cleanUpExpiredSessions env m =
     (case cu_begin_fault env of
        Some e \<Rightarrow> (Some (SqlError e), m)
      | None \<Rightarrow>
     (case cu_exec_fault env of
        Some e \<Rightarrow> (Some (SqlError e), m)
      | None \<Rightarrow>
     (case cu_commit_fault env of
        Some e \<Rightarrow> (Some (SqlError e), m)
      | None \<Rightarrow>
          (None,
           m\<lparr>db := (db m)\<lparr>session_tbl :=
                  filter (\<lambda>se. \<not> s_expire se < cu_now env) (session_tbl (db m))\<rparr>\<rparr>))))"

text \<open>
  \<open>updateAllSensorStatuses\<close> starts one goroutine per row of \<open>thing\<close>. A goroutine shares
  nothing with the others but the cache, which it writes under the lock, and the channel, to
  which it sends its error; so a run is the goroutines one after the other in the order in
  which they reach the lock or the channel. \<open>sched\<close> is that order, a rearrangement of the
  rows chosen by the scheduler, and \<open>fetch rid name\<close> is what the goroutine of a row meets.
  The list returned holds the errors in the order in which the channel delivers them.
\<close>

record update_env =
  ua_begin_fault :: sql_fault
  ua_query_fault :: sql_fault
  sched :: "(RoomID \<times> ThingName) list \<Rightarrow> (RoomID \<times> ThingName) list"
  fetch :: "RoomID \<Rightarrow> ThingName \<Rightarrow> fetch_env"

fun run_updates ::
  "(RoomID \<Rightarrow> ThingName \<Rightarrow> fetch_env) \<Rightarrow> (RoomID \<times> ThingName) list \<Rightarrow> error list
    \<Rightarrow> RoomStatusManager \<Rightarrow> error list \<times> RoomStatusManager" where
  "run_updates fe [] errs m = (errs, m)"
| "run_updates fe ((rid, name) # rest) errs m =
     (case updateSensorStatus (fe rid name) m rid name of
        (Some err, m') \<Rightarrow> run_updates fe rest (errs @ [err]) m'
      | (None, m') \<Rightarrow> run_updates fe rest errs m')"

definition updateAllSensorStatuses ::
  "update_env \<Rightarrow> RoomStatusManager \<Rightarrow> error list \<times> RoomStatusManager" where
  "updateAllSensorStatuses env m =
     (case ua_begin_fault env of
        Some e \<Rightarrow> ([SqlError e], m)
      | None \<Rightarrow>
     (case ua_query_fault env of
        Some e \<Rightarrow> ([SqlError e], m)
      | None \<Rightarrow> run_updates (fetch env) (sched env (thing_tbl (db m))) [] m))"

text \<open>
  \<open>cacheUpdater\<close>. The state is the manager and the lines logged so far. One element of
  the list of environments is what one iteration meets, with the case its \<open>select\<close> takes;
  the loop runs as long as the ticker's case is taken, so the list is a run of that many
  iterations, and \<open>None\<close> is a loop that has not returned within them.
\<close>

datatype select_case = CtxDone | TickC

datatype log_line = LogText string | LogError error

record cycle_env =
  update_part :: update_env
  cleanup_part :: cleanup_env
  selected :: select_case

definition cycle_body ::
  "cycle_env \<Rightarrow> RoomStatusManager \<times> log_line list \<Rightarrow> RoomStatusManager \<times> log_line list" where
  "cycle_body env st =
     (let (m, lg) = st;
          lg = lg @ [LogText ''update all sensor statuses''];
          (errs, m) = updateAllSensorStatuses (update_part env) m;
          lg = lg @ map LogError errs;
          lg = lg @ [LogText ''clean up expired sessions''];
          (err, m) = cleanUpExpiredSessions (cleanup_part env) m;
          lg = (case err of Some e \<Rightarrow> lg @ [LogError e] | None \<Rightarrow> lg)
      in (m, lg))"

fun cacheUpdater_loop ::
  "cycle_env list \<Rightarrow> RoomStatusManager \<times> log_line list
    \<Rightarrow> (RoomStatusManager \<times> log_line list) option" where
  "cacheUpdater_loop [] st = None"
| "cacheUpdater_loop (env # envs) st =
     (let st = cycle_body env st
      in case selected env of
           CtxDone \<Rightarrow> Some st
         | TickC \<Rightarrow> cacheUpdater_loop envs st)"

definition cacheUpdater ::
  "cycle_env list \<Rightarrow> RoomStatusManager \<Rightarrow> (RoomStatusManager \<times> log_line list) option" where
  "cacheUpdater envs m = cacheUpdater_loop envs (m, [LogText ''starting cacheUpdater''])"

section \<open>Notions used in the statements\<close>

text \<open>The cached reading of one sensor of one room, if there is one.\<close>

definition cache_lookup :: "RoomStatusManager \<Rightarrow> RoomID \<Rightarrow> ThingName \<Rightarrow> SensorStatus option" where
  "cache_lookup m rid name =
     (case sensorCache m rid of None \<Rightarrow> None | Some c \<Rightarrow> DAList.lookup c name)"

text \<open>
  What \<open>updateSensorStatus\<close> has in hand when it reaches the test of \<open>IsConnected\<close>: the
  error with which it has returned before, or the value of \<open>stat\<close>.
\<close>

definition fetch_outcome :: "fetch_env \<Rightarrow> ThingWorxClient \<Rightarrow> ThingName \<Rightarrow> error + SensorStatus" where
  "fetch_outcome env tw name =
     (case Properties tw (net env) name of
        Inl err \<Rightarrow> Inl err
      | Inr prop \<Rightarrow>
     (case Float64 (M prop ''temperature'') of
        Inl err \<Rightarrow> Inl err
      | Inr temperature \<Rightarrow>
     (case Float64 (M prop ''humidity'') of
        Inl err \<Rightarrow> Inl err
      | Inr humidity \<Rightarrow>
     (case Int64 (M prop ''lastUpdated'') of
        Inl err \<Rightarrow> Inl err
      | Inr ms \<Rightarrow> Inr (reading_stat env temperature humidity ms)))))"

text \<open>The errors of the sensors of a list of rows, row by row.\<close>

definition row_errors ::
  "(RoomID \<Rightarrow> ThingName \<Rightarrow> fetch_env) \<Rightarrow> ThingWorxClient \<Rightarrow> (RoomID \<times> ThingName) list
    \<Rightarrow> error list" where
  "row_errors fe tw rows =
     concat (map (\<lambda>(rid, name). case fetch_outcome (fe rid name) tw name of
                                   Inl err \<Rightarrow> [err]
                                 | Inr stat \<Rightarrow> []) rows)"

text \<open>
  The body that the spec expects of the telemetry service: "an object with a \<open>rows\<close> array
  whose element 0 has \<open>temperature\<close> (number), \<open>humidity\<close> (number), \<open>lastUpdated\<close>"; this
  definition follows the spec's words, with "number" for each of the three.
\<close>

fun spec_number_field :: "json \<Rightarrow> string \<Rightarrow> bool" where
  "spec_number_field (JObject kvs) k =
     (case map_of kvs k of Some (JNumber x) \<Rightarrow> True | _ \<Rightarrow> False)"
| "spec_number_field _ k = False"

fun spec_first_row :: "json \<Rightarrow> json option" where
  "spec_first_row (JObject kvs) =
     (case map_of kvs ''rows'' of Some (JArray (r # rs)) \<Rightarrow> Some r | _ \<Rightarrow> None)"
| "spec_first_row _ = None"

definition spec_has_reading :: "json option \<Rightarrow> bool" where
  "spec_has_reading body =
     (case body of
        None \<Rightarrow> False
      | Some doc \<Rightarrow>
          (case spec_first_row doc of
             None \<Rightarrow> False
           | Some r \<Rightarrow>
               spec_number_field r ''temperature'' \<and> spec_number_field r ''humidity''
               \<and> spec_number_field r ''lastUpdated''))"

text \<open>
  The tally in the spec's words: the votes of a room with a given choice, each counted
  once for every row of \<open>session\<close> with its session id whose \<open>expire\<close> is not before \<open>asOf\<close>.
\<close>

definition spec_tally :: "database \<Rightarrow> RoomID \<Rightarrow> Time \<Rightarrow> VoteChoice \<Rightarrow> nat" where
  "spec_tally d rid asOf c =
     sum_list
       (map (\<lambda>v. length (filter (\<lambda>se. s_session_id se = v_session_id v \<and> asOf \<le> s_expire se)
                          (session_tbl d)))
          (filter (\<lambda>v. v_room_id v = rid \<and> v_choice v = c) (vote_tbl d)))"

section \<open>Example data\<close>

text \<open>
  A client, a telemetry body with a given \<open>lastUpdated\<close> (in milliseconds), a network that
  answers every request with a given status and that body, and a clock at second 1000.
\<close>

definition ex_tw :: ThingWorxClient where
  "ex_tw = \<lparr>URL = ''http://tw'', AppKey = ''k''\<rparr>"

definition ex_row :: "float64 \<Rightarrow> json" where
  "ex_row ms =
     JObject [(''temperature'', JNumber 22.5), (''humidity'', JNumber 40),
              (''lastUpdated'', JNumber ms)]"

definition ex_doc :: "float64 \<Rightarrow> json" where
  "ex_doc ms = JObject [(''rows'', JArray [ex_row ms])]"

definition ex_net :: "nat \<Rightarrow> float64 \<Rightarrow> network" where
  "ex_net status ms = (\<lambda>url. Responds \<lparr>StatusCode = status, Body = Some (ex_doc ms)\<rparr>)"

definition ex_env :: "nat \<Rightarrow> float64 \<Rightarrow> fetch_env" where
  "ex_env status ms =
     \<lparr>net = ex_net status ms, now_connected = 1000000000000, now_expire = 1000000000000\<rparr>"

definition ex_env_down :: fetch_env where
  "ex_env_down =
     \<lparr>net = (\<lambda>url. DoFails ''timeout''), now_connected = 1000000000000,
      now_expire = 1000000000000\<rparr>"

definition ex_env_body :: "json option \<Rightarrow> fetch_env" where
  "ex_env_body body =
     \<lparr>net = (\<lambda>url. Responds \<lparr>StatusCode = 200, Body = body\<rparr>),
      now_connected = 1000000000000, now_expire = 1000000000000\<rparr>"

definition ex_doc_short :: json where
  "ex_doc_short = JObject [(''rows'', JArray [JObject [(''temperature'', JNumber 22.5)]])]"

definition ex_stat :: "int64 \<Rightarrow> SensorStatus" where
  "ex_stat lu =
     \<lparr>Temperature = 22.5, Humidity = 40, IsConnected = True, lastUpdated = lu,
      expire = 1180000000000\<rparr>"

text \<open>A database with two sensors in room 1 and one session, expired at instant 5.\<close>

definition ex_db :: database where
  "ex_db =
     \<lparr>vote_tbl = [],
      session_tbl = [\<lparr>s_session_id = ''B'', s_expire = 5\<rparr>],
      thing_tbl = [(1, ''S1''), (1, ''S2'')]\<rparr>"

definition ex_m :: RoomStatusManager where
  "ex_m = \<lparr>db = ex_db, thingworx = ex_tw, sensorCache = Map.empty\<rparr>"

text \<open>A manager whose cache holds two readings of room 1, expiring at 100 and at 50.\<close>

definition ex_cached :: "Time \<Rightarrow> SensorStatus" where
  "ex_cached t =
     \<lparr>Temperature = 20, Humidity = 50, IsConnected = True, lastUpdated = 0, expire = t\<rparr>"

definition ex_m_cached :: RoomStatusManager where
  "ex_m_cached =
     \<lparr>db = ex_db, thingworx = ex_tw,
      sensorCache = Map.empty(1 \<mapsto>
        DAList.update ''S2'' (ex_cached 50) (DAList.update ''S1'' (ex_cached 100) DAList.empty))\<rparr>"

text \<open>
  Transactions: one without a session, one of session A on an empty vote table, and one on a
  table where session A (live until 100) voted hot and session B (expired at 5) voted cold,
  both for room 1.
\<close>

definition ex_rst_nil :: RoomStatusTx where
  "ex_rst_nil = \<lparr>rsm = ex_m, tx = ex_db, s = None\<rparr>"

definition ex_rst_A :: RoomStatusTx where
  "ex_rst_A = \<lparr>rsm = ex_m, tx = ex_db, s = Some \<lparr>SessionID = ''A''\<rparr>\<rparr>"

definition ex_db_votes :: database where
  "ex_db_votes =
     \<lparr>vote_tbl =
        [\<lparr>vote_id = 1, v_session_id = ''A'', v_room_id = 1, v_choice = Hot, v_timestamp = 1\<rparr>,
         \<lparr>vote_id = 2, v_session_id = ''B'', v_room_id = 1, v_choice = Cold, v_timestamp = 2\<rparr>],
      session_tbl =
        [\<lparr>s_session_id = ''A'', s_expire = 100\<rparr>, \<lparr>s_session_id = ''B'', s_expire = 5\<rparr>],
      thing_tbl = []\<rparr>"

definition ex_rst_votes :: RoomStatusTx where
  "ex_rst_votes = \<lparr>rsm = ex_m, tx = ex_db_votes, s = Some \<lparr>SessionID = ''A''\<rparr>\<rparr>"

text \<open>
  Refresh cycles at instant 50: in one, sensor S1 answers with a reading ten seconds old
  and the request of S2 fails; in the other the transaction of the enumeration cannot be
  begun. The goroutines run in the reverse order of the rows.
\<close>

definition ex_fetch :: "RoomID \<Rightarrow> ThingName \<Rightarrow> fetch_env" where
  "ex_fetch rid name = (if name = ''S1'' then ex_env 200 990000 else ex_env_down)"

definition ex_update_env :: "sql_fault \<Rightarrow> update_env" where
  "ex_update_env flt =
     \<lparr>ua_begin_fault = flt, ua_query_fault = None, sched = rev, fetch = ex_fetch\<rparr>"

definition ex_cleanup_env :: cleanup_env where
  "ex_cleanup_env =
     \<lparr>cu_begin_fault = None, cu_exec_fault = None, cu_commit_fault = None, cu_now = 50\<rparr>"

definition ex_cycle_env :: "sql_fault \<Rightarrow> select_case \<Rightarrow> cycle_env" where
  "ex_cycle_env flt sel =
     \<lparr>update_part = ex_update_env flt, cleanup_part = ex_cleanup_env, selected = sel\<rparr>"

section \<open>Reading the cache\<close>

lemma range_cache_const:
  "range_cache (\<lambda>_. now) i es array =
     array @ map snd (filter (\<lambda>(k, v). now < expire v) es)"
  by (induction es arbitrary: i array) (auto simp: After_def)

lemma range_cache_subset:
  "set (range_cache clk i es array) \<subseteq>
     set array \<union> {v. \<exists>k j. (k, v) \<in> set es \<and> After (expire v) (clk j)}"
proof (induction es arbitrary: i array)
  case Nil
  show ?case by simp
next
  case (Cons a es)
  obtain k v where a: "a = (k, v)" by (cases a)
  show ?case
    using Cons.IH[of "Suc i" "if After (expire v) (clk i) then array @ [v] else array"]
    by (auto simp: a split: if_splits)
qed

text \<open>
  Claim C1. With the clock at \<open>now\<close> throughout the read, \<open>getSensorStatusFromCache\<close>
  returns exactly the cached readings of the room whose \<open>expire\<close> is after \<open>now\<close>; the flag
  is false exactly when the room has no entry or none of its readings is after \<open>now\<close>; no
  reading with \<open>expire \<le> now\<close> is returned. The last part also holds for a clock that moves
  during the read, as long as it never reads less than \<open>now\<close>. The function returns no new
  cache: it removes nothing.
\<close>

theorem cache_get_returns_unexpired:
  "(let entries = (case sensorCache m rid of None \<Rightarrow> [] | Some c \<Rightarrow> DAList.impl_of c);
        (readings, found) = getSensorStatusFromCache m (\<lambda>_. now) rid
    in readings = map snd (filter (\<lambda>(k, v). now < expire v) entries)
       \<and> (\<not> found \<longleftrightarrow> sensorCache m rid = None \<or> (\<forall>(k, v) \<in> set entries. expire v \<le> now))
       \<and> (\<forall>v \<in> set readings. \<not> expire v \<le> now))
   \<and> (\<forall>clk. (\<forall>i. now \<le> clk i) \<longrightarrow>
         (\<forall>v \<in> set (fst (getSensorStatusFromCache m clk rid)). \<not> expire v \<le> now))"
proof -
  have "\<not> expire v \<le> now"
    if "\<forall>i. now \<le> clk i" and "v \<in> set (fst (getSensorStatusFromCache m clk rid))" for clk v
  proof (cases "sensorCache m rid")
    case None
    then show ?thesis using that(2) by (simp add: getSensorStatusFromCache_def)
  next
    case (Some c)
    then have "v \<in> set (range_cache clk 0 (DAList.impl_of c) [])"
      using that(2) by (simp add: getSensorStatusFromCache_def Let_def)
    then obtain j where "After (expire v) (clk j)"
      using range_cache_subset[of clk 0 "DAList.impl_of c" "[]"] by auto
    then show ?thesis using that(1)[rule_format, of j] by (simp add: After_def)
  qed
  moreover have
    "(let entries = (case sensorCache m rid of None \<Rightarrow> [] | Some c \<Rightarrow> DAList.impl_of c);
          (readings, found) = getSensorStatusFromCache m (\<lambda>_. now) rid
      in readings = map snd (filter (\<lambda>(k, v). now < expire v) entries)
         \<and> (\<not> found \<longleftrightarrow> sensorCache m rid = None
               \<or> (\<forall>(k, v) \<in> set entries. expire v \<le> now))
         \<and> (\<forall>v \<in> set readings. \<not> expire v \<le> now))"
    by (cases "sensorCache m rid")
      (auto simp: getSensorStatusFromCache_def range_cache_const Let_def filter_empty_conv)
  ultimately show ?thesis by blast
qed

theorem cache_get_returns_unexpired_witness:
  "getSensorStatusFromCache ex_m_cached (\<lambda>_. 50) 1 = ([ex_cached 100], True)
   \<and> \<not> expire (ex_cached 100) \<le> 50
   \<and> getSensorStatusFromCache ex_m_cached (\<lambda>_. 100) 1 = ([], False)
   \<and> getSensorStatusFromCache ex_m_cached (\<lambda>_. 0) 2 = ([], False)"
  using cache_get_returns_unexpired [of ex_m_cached 1 50]
    cache_get_returns_unexpired [of ex_m_cached 1 100]
    cache_get_returns_unexpired [of ex_m_cached 2 0]
  by (simp add: ex_m_cached_def ex_cached_def DAList.update.rep_eq DAList.empty.rep_eq
      split: prod.splits)

section \<open>Refreshing one sensor\<close>

subsection \<open>The quotient and the connection test do not wrap\<close>

lemma sdiv_1000_bounds:
  fixes k :: int
  assumes "- (2 ^ 63) \<le> k" "k < 2 ^ 63"
  shows "- 9223372036854775 \<le> k sdiv 1000" "k sdiv 1000 \<le> 9223372036854775"
proof -
  have "\<bar>k\<bar> \<le> 2 ^ 63" using assms by simp
  then have "\<bar>k\<bar> div 1000 \<le> 2 ^ 63 div 1000" by (rule zdiv_mono1) simp
  then have b: "\<bar>k\<bar> div 1000 \<le> 9223372036854775" by simp
  have nn: "0 \<le> \<bar>k\<bar> div 1000" by (simp add: pos_imp_zdiv_nonneg_iff)
  show "- 9223372036854775 \<le> k sdiv 1000" "k sdiv 1000 \<le> 9223372036854775"
    using b nn by (auto simp: signed_divide_int_def sgn_if)
qed

lemma sint_quo_int64_1000: "sint (quo_int64 ms 1000) = sint ms sdiv 1000"
proof -
  have r: "- (2 ^ 63) \<le> sint ms" "sint ms < 2 ^ 63"
    using sint_ge[of ms] sint_lt[of ms] by simp_all
  note b = sdiv_1000_bounds[OF r]
  have "sint (quo_int64 ms 1000) = signed_take_bit 63 (sint ms sdiv 1000)"
    by (simp add: quo_int64_def sint_sbintrunc')
  also have "\<dots> = sint ms sdiv 1000"
    using b by (simp add: signed_take_bit_int_eq_self)
  finally show ?thesis .
qed

text \<open>
  The difference \<open>time.Now().Unix() - stat.lastUpdated\<close> is computed in \<open>int64\<close>. After
  the division by 1000 the subtrahend is small, so a difference that wraps around is still
  far from \<open>-60 .. 60\<close>: the test is the test of the mathematical difference.
\<close>

lemma connected_no_wrap:
  "\<bar>sint (a - quo_int64 ms 1000)\<bar> \<le> 60 \<longleftrightarrow> \<bar>sint a - sint ms sdiv 1000\<bar> \<le> 60"
proof -
  define d where "d = sint a - sint ms sdiv 1000"
  have r: "- (2 ^ 63) \<le> sint ms" "sint ms < 2 ^ 63"
    using sint_ge[of ms] sint_lt[of ms] by simp_all
  note b = sdiv_1000_bounds[OF r]
  have ra: "- (2 ^ 63) \<le> sint a" "sint a < 2 ^ 63"
    using sint_ge[of a] sint_lt[of a] by simp_all
  have s: "sint (a - quo_int64 ms 1000) = signed_take_bit 63 d"
    by (simp add: sint_word_ariths sint_quo_int64_1000 d_def)
  consider "d < - (2 ^ 63)" | "- (2 ^ 63) \<le> d \<and> d < 2 ^ 63" | "2 ^ 63 \<le> d" by linarith
  then have "\<bar>signed_take_bit 63 d\<bar> \<le> 60 \<longleftrightarrow> \<bar>d\<bar> \<le> 60"
  proof cases
    case 1
    then have "d + 2 ^ Suc 63 \<le> signed_take_bit 63 d"
      by (rule signed_take_bit_int_greater_eq)
    moreover have "- (2 ^ 63) - 9223372036854775 \<le> d" using ra b by (simp add: d_def)
    ultimately show ?thesis using 1 by simp
  next
    case 2
    then have "signed_take_bit 63 d = d" by (simp add: signed_take_bit_int_eq_self)
    then show ?thesis by simp
  next
    case 3
    then have "signed_take_bit 63 d \<le> d - 2 ^ Suc 63"
      by (rule signed_take_bit_int_less_eq)
    moreover have "d \<le> 2 ^ 63 + 9223372036854775" using ra b by (simp add: d_def)
    ultimately show ?thesis using 3 by simp
  qed
  then show ?thesis by (simp add: s d_def)
qed

lemma IsConnected_reading_stat:
  "IsConnected (reading_stat env t h ms)
     \<longleftrightarrow> \<bar>sint (Unix (now_connected env)) - sint ms sdiv 1000\<bar> \<le> 60"
  by (simp add: reading_stat_def Let_def connected_no_wrap)

subsection \<open>The steps of \<open>updateSensorStatus\<close>\<close>

lemma updateSensorStatus_fetched:
  assumes "Properties (thingworx m) (net env) name = Inr prop"
    and "Float64 (M prop ''temperature'') = Inr t"
    and "Float64 (M prop ''humidity'') = Inr h"
    and "Int64 (M prop ''lastUpdated'') = Inr ms"
  shows "updateSensorStatus env m rid name =
          (let stat = reading_stat env t h ms
           in if \<not> IsConnected stat then (None, m)
              else (None,
                     m\<lparr>sensorCache := (sensorCache m)(rid \<mapsto>
                         DAList.update name stat
                           (case sensorCache m rid of None \<Rightarrow> DAList.empty | Some c \<Rightarrow> c))\<rparr>))"
  using assms by (simp add: updateSensorStatus_def Let_def)

lemma updateSensorStatus_outcome:
  "updateSensorStatus env m rid name =
     (case fetch_outcome env (thingworx m) name of
        Inl err \<Rightarrow> (Some err, m)
      | Inr stat \<Rightarrow>
          if \<not> IsConnected stat then (None, m)
          else (None,
                m\<lparr>sensorCache := (sensorCache m)(rid \<mapsto>
                    DAList.update name stat
                      (case sensorCache m rid of None \<Rightarrow> DAList.empty | Some c \<Rightarrow> c))\<rparr>))"
  by (simp add: updateSensorStatus_def fetch_outcome_def Let_def split: sum.splits)

text \<open>The example requests, evaluated once.\<close>

lemma ex_Properties:
  "Properties ex_tw (ex_net status ms) name = Inr (ValueProxy (ex_row ms))"
  by (simp add: Properties_def ex_net_def ex_doc_def New_def)

lemma ex_fields:
  "Float64 (M (ValueProxy (ex_row ms)) ''temperature'') = Inr 22.5"
  "Float64 (M (ValueProxy (ex_row ms)) ''humidity'') = Inr 40"
  "Int64 (M (ValueProxy (ex_row ms)) ''lastUpdated'') = Inr (int64_of_float64 ms)"
  by (simp_all add: ex_row_def)

lemma ex_int64:
  "int64_of_float64 990000 = 990000" "int64_of_float64 880000 = 880000"
  by (simp_all add: int64_of_float64_def)

lemma ex_quo:
  "quo_int64 990000 1000 = 990" "quo_int64 880000 1000 = 880"
  by (simp_all add: quo_int64_def signed_divide_int_def)

lemma ex_fetch_outcome:
  "fetch_outcome (ex_env status 990000) ex_tw name = Inr (ex_stat 990)"
  "fetch_outcome (ex_env status 880000) ex_tw name = Inr ((ex_stat 880)\<lparr>IsConnected := False\<rparr>)"
  by (simp_all add: fetch_outcome_def ex_env_def ex_Properties ex_fields ex_int64 ex_quo
      reading_stat_def Let_def Unix_def Add_def CACHE_EXPIRE_def Minute_def ex_stat_def)

lemma ex_fetch_outcome_down:
  "fetch_outcome ex_env_down ex_tw name = Inl (HttpError ''timeout'')"
  by (simp add: fetch_outcome_def ex_env_down_def Properties_def)

text \<open>
  Claim C7. When the fetch has delivered the three fields, with \<open>ms\<close> the \<open>int64\<close> read
  from \<open>lastUpdated\<close>: the \<open>stat\<close> that \<open>updateSensorStatus\<close> builds holds the temperature and
  the humidity, its \<open>lastUpdated\<close> is \<open>ms\<close> divided by 1000 (the quotient truncated towards
  zero), its \<open>IsConnected\<close> is true exactly when the clock's second and that quotient differ
  by at most 60, and its \<open>expire\<close> is the clock plus \<open>CACHE_EXPIRE\<close>; when it is connected,
  the call returns no error and this \<open>stat\<close> is the cache entry of the sensor.
\<close>

theorem reading_stat_fields:
  assumes "Properties (thingworx m) (net env) name = Inr prop"
    and "Float64 (M prop ''temperature'') = Inr t"
    and "Float64 (M prop ''humidity'') = Inr h"
    and "Int64 (M prop ''lastUpdated'') = Inr ms"
  shows "(let stat = reading_stat env t h ms
          in Temperature stat = t \<and> Humidity stat = h
             \<and> sint (lastUpdated stat) = sint ms sdiv 1000
             \<and> (IsConnected stat
                  \<longleftrightarrow> \<bar>sint (Unix (now_connected env)) - sint ms sdiv 1000\<bar> \<le> 60)
             \<and> expire stat = now_expire env + CACHE_EXPIRE
             \<and> (IsConnected stat \<longrightarrow>
                  fst (updateSensorStatus env m rid name) = None
                  \<and> cache_lookup (snd (updateSensorStatus env m rid name)) rid name = Some stat))"
proof -
  have "cache_lookup (snd (updateSensorStatus env m rid name)) rid name
          = Some (reading_stat env t h ms)"
    and "fst (updateSensorStatus env m rid name) = None"
    if "IsConnected (reading_stat env t h ms)"
    using that by (simp_all add: updateSensorStatus_fetched[OF assms] Let_def cache_lookup_def)
  moreover have "sint (lastUpdated (reading_stat env t h ms)) = sint ms sdiv 1000"
    by (simp add: reading_stat_def Let_def sint_quo_int64_1000)
  moreover have "Temperature (reading_stat env t h ms) = t"
    "Humidity (reading_stat env t h ms) = h"
    "expire (reading_stat env t h ms) = now_expire env + CACHE_EXPIRE"
    by (simp_all add: reading_stat_def Let_def Add_def)
  ultimately show ?thesis
    using IsConnected_reading_stat[of env t h ms] by (simp add: Let_def)
qed

theorem reading_stat_fields_witness:
  "Properties (thingworx ex_m) (net (ex_env 200 990000)) ''S1'' = Inr (ValueProxy (ex_row 990000))
   \<and> Float64 (M (ValueProxy (ex_row 990000)) ''temperature'') = Inr 22.5
   \<and> Float64 (M (ValueProxy (ex_row 990000)) ''humidity'') = Inr 40
   \<and> Int64 (M (ValueProxy (ex_row 990000)) ''lastUpdated'') = Inr 990000
   \<and> reading_stat (ex_env 200 990000) 22.5 40 990000 = ex_stat 990
   \<and> IsConnected (ex_stat 990)
   \<and> fst (updateSensorStatus (ex_env 200 990000) ex_m 1 ''S1'') = None
   \<and> cache_lookup (snd (updateSensorStatus (ex_env 200 990000) ex_m 1 ''S1'')) 1 ''S1''
       = Some (ex_stat 990)"
proof -
  have p: "Properties (thingworx ex_m) (net (ex_env 200 990000)) ''S1''
             = Inr (ValueProxy (ex_row 990000))"
    by (simp add: ex_m_def ex_env_def ex_Properties)
  have f: "Int64 (M (ValueProxy (ex_row 990000)) ''lastUpdated'') = Inr 990000"
    by (simp add: ex_fields ex_int64)
  have r: "reading_stat (ex_env 200 990000) 22.5 40 990000 = ex_stat 990"
    by (simp add: reading_stat_def ex_env_def ex_quo Let_def Unix_def Add_def CACHE_EXPIRE_def
        Minute_def ex_stat_def)
  show ?thesis
    using reading_stat_fields [OF p ex_fields(1) ex_fields(2) f, of 1] p f r
    by (simp add: ex_fields Let_def ex_stat_def)
qed

text \<open>
  Claim C4. When the fetch has delivered the three fields and the clock's second differs
  from \<open>lastUpdated\<close> (in seconds) by more than 60, \<open>updateSensorStatus\<close> returns no error
  and the manager it leaves is the manager it found, so every read of the cache gives what
  it gave before.
\<close>

theorem stale_reading_discarded:
  assumes "Properties (thingworx m) (net env) name = Inr prop"
    and "Float64 (M prop ''temperature'') = Inr t"
    and "Float64 (M prop ''humidity'') = Inr h"
    and "Int64 (M prop ''lastUpdated'') = Inr ms"
    and "\<bar>sint (Unix (now_connected env)) - sint ms sdiv 1000\<bar> > 60"
  shows "updateSensorStatus env m rid name = (None, m)
         \<and> getSensorStatusFromCache (snd (updateSensorStatus env m rid name)) clk r
             = getSensorStatusFromCache m clk r"
proof -
  have "\<not> IsConnected (reading_stat env t h ms)"
    using assms(5) by (simp add: IsConnected_reading_stat)
  then have "updateSensorStatus env m rid name = (None, m)"
    by (simp add: updateSensorStatus_fetched[OF assms(1-4)] Let_def)
  then show ?thesis by simp
qed

theorem stale_reading_discarded_witness:
  "Properties (thingworx ex_m) (net (ex_env 200 880000)) ''S2'' = Inr (ValueProxy (ex_row 880000))
   \<and> Int64 (M (ValueProxy (ex_row 880000)) ''lastUpdated'') = Inr 880000
   \<and> \<bar>sint (Unix (now_connected (ex_env 200 880000))) - sint (880000 :: int64) sdiv 1000\<bar> = 120
   \<and> updateSensorStatus (ex_env 200 880000) ex_m 1 ''S2'' = (None, ex_m)
   \<and> getSensorStatusFromCache (snd (updateSensorStatus (ex_env 200 880000) ex_m 1 ''S2''))
        (\<lambda>_. 1000000000000) 1 = ([], False)"
proof -
  have p: "Properties (thingworx ex_m) (net (ex_env 200 880000)) ''S2''
             = Inr (ValueProxy (ex_row 880000))"
    by (simp add: ex_m_def ex_env_def ex_Properties)
  have f: "Int64 (M (ValueProxy (ex_row 880000)) ''lastUpdated'') = Inr 880000"
    by (simp add: ex_fields ex_int64)
  have d: "\<bar>sint (Unix (now_connected (ex_env 200 880000))) - sint (880000 :: int64) sdiv 1000\<bar>
             = 120"
    by (simp add: ex_env_def Unix_def signed_divide_int_def)
  have g: "getSensorStatusFromCache ex_m (\<lambda>_. 1000000000000) 1 = ([], False)"
    by (simp add: getSensorStatusFromCache_def ex_m_def)
  show ?thesis
    using stale_reading_discarded [OF p ex_fields(1) ex_fields(2) f, of 1 "\<lambda>_. 1000000000000" 1]
      p f d g
    by simp
qed

subsection \<open>When the fetch fails\<close>

lemma Float64_M_iff:
  "(\<exists>x. Float64 (M p k) = Inr x) \<longleftrightarrow> (\<exists>r. p = ValueProxy r \<and> spec_number_field r k)"
proof (cases p)
  case (ValueProxy r)
  then show ?thesis
    by (cases r) (auto split: option.splits json.splits)
next
  case (ErrorProxy e)
  then show ?thesis by simp
qed

lemma Int64_M_iff:
  "(\<exists>x. Int64 (M p k) = Inr x) \<longleftrightarrow> (\<exists>r. p = ValueProxy r \<and> spec_number_field r k)"
proof (cases p)
  case (ValueProxy r)
  then show ?thesis
    by (cases r) (auto split: option.splits json.splits)
next
  case (ErrorProxy e)
  then show ?thesis by simp
qed

lemma first_row_proxy:
  "A (M (New doc) ''rows'') 0 =
     (case spec_first_row doc of
        Some r \<Rightarrow> ValueProxy r
      | None \<Rightarrow> A (M (New doc) ''rows'') 0)"
  "spec_first_row doc = None \<Longrightarrow> \<exists>e. A (M (New doc) ''rows'') 0 = ErrorProxy e"
  by (cases doc; auto simp: New_def split: option.splits json.splits list.splits)+

lemma updateSensorStatus_no_error_iff:
  "fst (updateSensorStatus env m rid name) = None \<longleftrightarrow>
     (\<exists>prop. Properties (thingworx m) (net env) name = Inr prop
        \<and> (\<exists>t. Float64 (M prop ''temperature'') = Inr t)
        \<and> (\<exists>h. Float64 (M prop ''humidity'') = Inr h)
        \<and> (\<exists>ms. Int64 (M prop ''lastUpdated'') = Inr ms))"
  by (auto simp: updateSensorStatus_def Let_def split: sum.splits)

lemma Properties_Inr_iff:
  "Properties tw nt name = Inr prop \<longleftrightarrow>
     (\<exists>res. nt (properties_url tw name) = Responds res
        \<and> prop = A (M (New (case Body res of None \<Rightarrow> JNull | Some v \<Rightarrow> v)) ''rows'') 0)"
  by (auto simp: Properties_def Let_def split: http_outcome.splits)

lemma reading_of_body:
  "((\<exists>t. Float64 (M (A (M (New d) ''rows'') 0) ''temperature'') = Inr t)
     \<and> (\<exists>h. Float64 (M (A (M (New d) ''rows'') 0) ''humidity'') = Inr h)
     \<and> (\<exists>ms. Int64 (M (A (M (New d) ''rows'') 0) ''lastUpdated'') = Inr ms))
   \<longleftrightarrow> (case spec_first_row d of
          None \<Rightarrow> False
        | Some r \<Rightarrow> spec_number_field r ''temperature'' \<and> spec_number_field r ''humidity''
                   \<and> spec_number_field r ''lastUpdated'')"
proof (cases "spec_first_row d")
  case None
  then obtain e where "A (M (New d) ''rows'') 0 = ErrorProxy e"
    using first_row_proxy(2) by blast
  then show ?thesis using None by simp
next
  case (Some r)
  then have "A (M (New d) ''rows'') 0 = ValueProxy r"
    using first_row_proxy(1)[of d] by simp
  then show ?thesis using Some by (simp add: Float64_M_iff Int64_M_iff)
qed

text \<open>
  Claim C5, as stated, fails: \<open>Properties\<close> never looks at the status of the response. A
  response with status 500 whose body holds the three fields is read like any other: the
  call returns no error and the reading is cached.
\<close>

theorem fetch_accepts_non_2xx:
  "net (ex_env 500 990000) (properties_url (thingworx ex_m) ''S1'')
     = Responds \<lparr>StatusCode = 500, Body = Some (ex_doc 990000)\<rparr>
   \<and> Properties (thingworx ex_m) (net (ex_env 500 990000)) ''S1''
       = Inr (ValueProxy (ex_row 990000))
   \<and> fst (updateSensorStatus (ex_env 500 990000) ex_m 1 ''S1'') = None
   \<and> cache_lookup (snd (updateSensorStatus (ex_env 500 990000) ex_m 1 ''S1'')) 1 ''S1''
       = Some (ex_stat 990)"
proof -
  have tw: "thingworx ex_m = ex_tw" by (simp add: ex_m_def)
  have n: "net (ex_env 500 990000) = ex_net 500 990000" by (simp add: ex_env_def)
  have "net (ex_env 500 990000) (properties_url (thingworx ex_m) ''S1'')
          = Responds \<lparr>StatusCode = 500, Body = Some (ex_doc 990000)\<rparr>"
    by (simp add: n ex_net_def)
  moreover have "Properties (thingworx ex_m) (net (ex_env 500 990000)) ''S1''
          = Inr (ValueProxy (ex_row 990000))"
    by (simp only: tw n ex_Properties)
  moreover have "fst (updateSensorStatus (ex_env 500 990000) ex_m 1 ''S1'') = None"
    "cache_lookup (snd (updateSensorStatus (ex_env 500 990000) ex_m 1 ''S1'')) 1 ''S1''
       = Some (ex_stat 990)"
    by (simp_all add: updateSensorStatus_outcome tw ex_fetch_outcome cache_lookup_def
        ex_stat_def)
  ultimately show ?thesis by simp
qed

text \<open>
  Claim C5, amended. \<open>updateSensorStatus\<close> returns an error exactly when the request
  cannot be built or sent, or the response's body is not a JSON document, or the document
  has no first row under \<open>rows\<close> holding numbers for \<open>temperature\<close>, \<open>humidity\<close> and
  \<open>lastUpdated\<close>. The status of the response has no part in it.
\<close>

theorem fetch_error_iff:
  "fst (updateSensorStatus env m rid name) \<noteq> None \<longleftrightarrow>
     (case net env (properties_url (thingworx m) name) of
        NewRequestFails e \<Rightarrow> True
      | DoFails e \<Rightarrow> True
      | Responds res \<Rightarrow> \<not> spec_has_reading (Body res))"
proof (cases "net env (properties_url (thingworx m) name)")
  case (Responds res)
  have "spec_has_reading (Body res) \<longleftrightarrow>
          (case spec_first_row (case Body res of None \<Rightarrow> JNull | Some v \<Rightarrow> v) of
             None \<Rightarrow> False
           | Some r \<Rightarrow> spec_number_field r ''temperature'' \<and> spec_number_field r ''humidity''
                      \<and> spec_number_field r ''lastUpdated'')"
    by (simp add: spec_has_reading_def split: option.splits)
  then show ?thesis
    using Responds
    by (simp add: updateSensorStatus_no_error_iff Properties_Inr_iff
        reading_of_body[symmetric])
qed (simp_all add: updateSensorStatus_no_error_iff Properties_Inr_iff)

theorem fetch_error_iff_witness:
  "fst (updateSensorStatus ex_env_down ex_m 1 ''S2'') \<noteq> None
   \<and> net ex_env_down (properties_url (thingworx ex_m) ''S2'') = DoFails ''timeout''
   \<and> fst (updateSensorStatus (ex_env_body None) ex_m 1 ''S2'') \<noteq> None
   \<and> fst (updateSensorStatus (ex_env_body (Some ex_doc_short)) ex_m 1 ''S2'') \<noteq> None
   \<and> \<not> spec_has_reading (Some ex_doc_short)
   \<and> fst (updateSensorStatus (ex_env_body (Some (ex_doc 990000))) ex_m 1 ''S2'') = None
   \<and> spec_has_reading (Some (ex_doc 990000))"
  using fetch_error_iff [of ex_env_down ex_m 1 "''S2''"]
    fetch_error_iff [of "ex_env_body None" ex_m 1 "''S2''"]
    fetch_error_iff [of "ex_env_body (Some ex_doc_short)" ex_m 1 "''S2''"]
    fetch_error_iff [of "ex_env_body (Some (ex_doc 990000))" ex_m 1 "''S2''"]
  by (simp add: ex_env_down_def ex_env_body_def spec_has_reading_def ex_doc_short_def
      ex_doc_def ex_row_def)

section \<open>Votes\<close>

text \<open>
  Claim C10. On a transaction without a session \<open>GetMyVote\<close> returns no vote and no error,
  whatever the database would do (no statement is run); that is also what it returns for a
  session that has no vote for the room.
\<close>

theorem GetMyVote_nil_session:
  "(s rst = None \<longrightarrow> GetMyVote flt rst rid = Inr None)
   \<and> (\<forall>sess. s rst = Some sess \<and> select_votes (tx rst) (SessionID sess) rid = []
         \<longrightarrow> GetMyVote None rst rid = Inr None)"
  by (simp add: GetMyVote_def QueryRow_def)

theorem GetMyVote_nil_session_witness:
  "s ex_rst_nil = None
   \<and> GetMyVote (Some ''connection lost'') ex_rst_nil 1 = Inr None
   \<and> GetMyVote None ex_rst_nil 1 = Inr None
   \<and> s ex_rst_A = Some \<lparr>SessionID = ''A''\<rparr>
   \<and> select_votes (tx ex_rst_A) ''A'' 1 = []
   \<and> GetMyVote None ex_rst_A 1 = Inr None"
  using GetMyVote_nil_session [of ex_rst_nil "Some ''connection lost''" 1]
    GetMyVote_nil_session [of ex_rst_nil None 1]
    GetMyVote_nil_session [of ex_rst_A None 1]
  by (simp add: ex_rst_nil_def ex_rst_A_def ex_db_def select_votes_def)

text \<open>
  Claim C6. Without a session \<open>Vote\<close> panics, for every room and choice and whatever the
  database would do; with a session it returns (an error or \<open>nil\<close>), whatever
  \<open>UpdateChoice\<close> returns.
\<close>

theorem Vote_panics_iff_no_session:
  "(s rst = None \<longrightarrow> Vote updateChoice flt rst rid choice = Panics ''session must not nil'')
   \<and> (s rst \<noteq> None \<longrightarrow> (\<exists>r. Vote updateChoice flt rst rid choice = Returns r))"
  by (auto simp: Vote_def Let_def split: option.splits sum.splits error.splits)

theorem Vote_panics_iff_no_session_witness:
  "s ex_rst_nil = None
   \<and> Vote (UpdateChoice None 10) None ex_rst_nil 1 Hot = Panics ''session must not nil''
   \<and> s ex_rst_A \<noteq> None
   \<and> (\<exists>r. Vote (UpdateChoice None 10) None ex_rst_A 1 Hot = Returns r)
   \<and> (\<exists>r. Vote (UpdateChoice None 10) (Some ''connection lost'') ex_rst_A 1 Hot = Returns r)"
  using Vote_panics_iff_no_session [of ex_rst_nil "UpdateChoice None 10" None 1 Hot]
    Vote_panics_iff_no_session [of ex_rst_A "UpdateChoice None 10" None 1 Hot]
    Vote_panics_iff_no_session
      [of ex_rst_A "UpdateChoice None 10" "Some ''connection lost''" 1 Hot]
  by (simp add: ex_rst_nil_def ex_rst_A_def)

subsection \<open>Voting twice\<close>

lemma fresh_vote_id_nonzero: "0 < fresh_vote_id rows"
  by (simp add: fresh_vote_id_def)

lemma Vote_lookup:
  assumes "s rst = Some sess"
  shows "Vote upd None rst rid c =
     Returns (upd \<lparr>VoteID = (case select_votes (tx rst) (SessionID sess) rid of
                                [] \<Rightarrow> 0 | r # _ \<Rightarrow> vote_id r),
                   Vote_RoomID = rid, S = sess, Choice = OtherChoice [],
                   Vote_Timestamp = zeroTime\<rparr> (tx rst) c)"
  using assms by (simp add: Vote_def QueryRow_def Let_def split: list.splits)

lemma select_votes_insert:
  "select_votes (d\<lparr>vote_tbl := vote_tbl d @ [r]\<rparr>) sid rid =
     select_votes d sid rid @ (if v_session_id r = sid \<and> v_room_id r = rid then [r] else [])"
  by (simp add: select_votes_def)

lemma select_votes_update:
  "select_votes
     (d\<lparr>vote_tbl := map (\<lambda>r. if vote_id r = i then r\<lparr>v_choice := c, v_timestamp := t\<rparr> else r)
                       (vote_tbl d)\<rparr>) sid rid =
   map (\<lambda>r. if vote_id r = i then r\<lparr>v_choice := c, v_timestamp := t\<rparr> else r)
     (select_votes d sid rid)"
  by (simp add: select_votes_def filter_map comp_def if_distrib[of v_session_id]
        if_distrib[of v_room_id] cong: if_cong)

lemma Vote_once:
  assumes "s rst = Some sess"
    and "length (select_votes (tx rst) (SessionID sess) rid) \<le> 1"
    and "\<forall>r \<in> set (select_votes (tx rst) (SessionID sess) rid). vote_id r \<noteq> 0"
  shows "\<exists>d r. Vote (UpdateChoice None t) None rst rid c = Returns (None, d)
           \<and> select_votes d (SessionID sess) rid = [r]
           \<and> v_choice r = c \<and> v_timestamp r = t \<and> vote_id r \<noteq> 0"
proof (cases "select_votes (tx rst) (SessionID sess) rid")
  case Nil
  then show ?thesis
    using assms(1)
    by (simp add: Vote_lookup UpdateChoice_def select_votes_insert fresh_vote_id_nonzero)
next
  case (Cons r rs)
  then have rs: "rs = []" and nz: "vote_id r \<noteq> 0" using assms(2,3) by simp_all
  show ?thesis
    using assms(1) Cons rs nz
    by (simp add: Vote_lookup UpdateChoice_def select_votes_update)
qed

text \<open>
  Claim C2. \<open>Vote\<close> looks up the vote id of the pair of session and room and hands
  \<open>UpdateChoice\<close> a vote with id 0 when there is none and with the id found otherwise. With
  \<open>UpdateChoice\<close> as the spec describes it, and on a table that holds at most one row for
  the pair, with an id other than 0 (so it is after every vote): two votes of the session
  for the room, no statement failing, leave exactly one row for the pair, and it carries
  the second choice and timestamp.
\<close>

theorem Vote_twice_one_row:
  assumes "s rst = Some sess"
    and "length (select_votes (tx rst) (SessionID sess) rid) \<le> 1"
    and "\<forall>r \<in> set (select_votes (tx rst) (SessionID sess) rid). vote_id r \<noteq> 0"
  shows "(\<forall>upd. Vote upd None rst rid c1 =
            Returns (upd \<lparr>VoteID = (case select_votes (tx rst) (SessionID sess) rid of
                                      [] \<Rightarrow> 0 | r # _ \<Rightarrow> vote_id r),
                          Vote_RoomID = rid, S = sess, Choice = OtherChoice [],
                          Vote_Timestamp = zeroTime\<rparr> (tx rst) c1))
         \<and> (\<exists>d1 d2 r. Vote (UpdateChoice None t1) None rst rid c1 = Returns (None, d1)
               \<and> Vote (UpdateChoice None t2) None (rst\<lparr>tx := d1\<rparr>) rid c2 = Returns (None, d2)
               \<and> select_votes d2 (SessionID sess) rid = [r]
               \<and> v_choice r = c2 \<and> v_timestamp r = t2)"
proof -
  obtain d1 r1 where 1: "Vote (UpdateChoice None t1) None rst rid c1 = Returns (None, d1)"
    and s1: "select_votes d1 (SessionID sess) rid = [r1]" and nz: "vote_id r1 \<noteq> 0"
    using Vote_once[OF assms, of t1 c1] by blast
  have "\<exists>d r. Vote (UpdateChoice None t2) None (rst\<lparr>tx := d1\<rparr>) rid c2 = Returns (None, d)
           \<and> select_votes d (SessionID sess) rid = [r]
           \<and> v_choice r = c2 \<and> v_timestamp r = t2 \<and> vote_id r \<noteq> 0"
    by (rule Vote_once) (use assms(1) s1 nz in simp_all)
  then show ?thesis using 1 Vote_lookup[OF assms(1)] by blast
qed

theorem Vote_twice_one_row_witness:
  "s ex_rst_A = Some \<lparr>SessionID = ''A''\<rparr>
   \<and> select_votes (tx ex_rst_A) ''A'' 1 = []
   \<and> (\<exists>d1 d2 r. Vote (UpdateChoice None 10) None ex_rst_A 1 Hot = Returns (None, d1)
         \<and> Vote (UpdateChoice None 20) None (ex_rst_A\<lparr>tx := d1\<rparr>) 1 Cold = Returns (None, d2)
         \<and> select_votes d2 ''A'' 1 = [r] \<and> v_choice r = Cold \<and> v_timestamp r = 20)
   \<and> s ex_rst_votes = Some \<lparr>SessionID = ''A''\<rparr>
   \<and> map vote_id (select_votes (tx ex_rst_votes) ''A'' 1) = [1]
   \<and> (\<exists>d1 d2 r. Vote (UpdateChoice None 10) None ex_rst_votes 1 Comfort = Returns (None, d1)
         \<and> Vote (UpdateChoice None 20) None (ex_rst_votes\<lparr>tx := d1\<rparr>) 1 Cold
             = Returns (None, d2)
         \<and> select_votes d2 ''A'' 1 = [r] \<and> v_choice r = Cold \<and> v_timestamp r = 20)"
proof -
  have a: "s ex_rst_A = Some \<lparr>SessionID = ''A''\<rparr>"
    by (simp add: ex_rst_A_def)
  have b: "select_votes (tx ex_rst_A) ''A'' 1 = []"
    by (simp add: ex_rst_A_def ex_db_def select_votes_def)
  have c: "s ex_rst_votes = Some \<lparr>SessionID = ''A''\<rparr>"
    by (simp add: ex_rst_votes_def)
  have d: "select_votes (tx ex_rst_votes) ''A'' 1 =
             [\<lparr>vote_id = 1, v_session_id = ''A'', v_room_id = 1, v_choice = Hot,
               v_timestamp = 1\<rparr>]"
    by (simp add: ex_rst_votes_def ex_db_votes_def select_votes_def)
  have "\<exists>d1 d2 r. Vote (UpdateChoice None 10) None ex_rst_A 1 Hot = Returns (None, d1)
         \<and> Vote (UpdateChoice None 20) None (ex_rst_A\<lparr>tx := d1\<rparr>) 1 Cold = Returns (None, d2)
         \<and> select_votes d2 ''A'' 1 = [r] \<and> v_choice r = Cold \<and> v_timestamp r = 20"
    using Vote_twice_one_row [OF a, of 1 Hot 10 20 Cold, THEN conjunct2] b by simp
  moreover have
    "\<exists>d1 d2 r. Vote (UpdateChoice None 10) None ex_rst_votes 1 Comfort = Returns (None, d1)
         \<and> Vote (UpdateChoice None 20) None (ex_rst_votes\<lparr>tx := d1\<rparr>) 1 Cold
             = Returns (None, d2)
         \<and> select_votes d2 ''A'' 1 = [r] \<and> v_choice r = Cold \<and> v_timestamp r = 20"
    using Vote_twice_one_row [OF c, of 1 Comfort 10 20 Cold, THEN conjunct2] d by simp
  ultimately show ?thesis using a b c d by simp
qed

subsection \<open>The tally\<close>

lemma scan_counts_Hot:
  "distinct (map fst rows) \<Longrightarrow>
   Hot_count (scan_counts rs rows) = (case map_of rows Hot of Some n \<Rightarrow> n | None \<Rightarrow> Hot_count rs)"
proof (induction rows arbitrary: rs)
  case Nil
  show ?case by simp
next
  case (Cons a rows)
  obtain c n where a: "a = (c, n)" by (cases a)
  from Cons.prems have d: "distinct (map fst rows)" and notin: "c \<notin> fst ` set rows"
    by (simp_all add: a)
  show ?case
  proof (cases "c = Hot")
    case True
    then have "map_of rows Hot = None" using notin by (simp add: map_of_eq_None_iff)
    then show ?thesis using Cons.IH[OF d] True by (simp add: a)
  next
    case False
    then show ?thesis
      using Cons.IH[OF d] by (cases c) (simp_all add: a split: option.splits)
  qed
qed

lemma scan_counts_Comfort:
  "distinct (map fst rows) \<Longrightarrow>
   Comfort_count (scan_counts rs rows) =
     (case map_of rows Comfort of Some n \<Rightarrow> n | None \<Rightarrow> Comfort_count rs)"
proof (induction rows arbitrary: rs)
  case Nil
  show ?case by simp
next
  case (Cons a rows)
  obtain c n where a: "a = (c, n)" by (cases a)
  from Cons.prems have d: "distinct (map fst rows)" and notin: "c \<notin> fst ` set rows"
    by (simp_all add: a)
  show ?case
  proof (cases "c = Comfort")
    case True
    then have "map_of rows Comfort = None" using notin by (simp add: map_of_eq_None_iff)
    then show ?thesis using Cons.IH[OF d] True by (simp add: a)
  next
    case False
    then show ?thesis
      using Cons.IH[OF d] by (cases c) (simp_all add: a split: option.splits)
  qed
qed

lemma scan_counts_Cold:
  "distinct (map fst rows) \<Longrightarrow>
   Cold_count (scan_counts rs rows) =
     (case map_of rows Cold of Some n \<Rightarrow> n | None \<Rightarrow> Cold_count rs)"
proof (induction rows arbitrary: rs)
  case Nil
  show ?case by simp
next
  case (Cons a rows)
  obtain c n where a: "a = (c, n)" by (cases a)
  from Cons.prems have d: "distinct (map fst rows)" and notin: "c \<notin> fst ` set rows"
    by (simp_all add: a)
  show ?case
  proof (cases "c = Cold")
    case True
    then have "map_of rows Cold = None" using notin by (simp add: map_of_eq_None_iff)
    then show ?thesis using Cons.IH[OF d] True by (simp add: a)
  next
    case False
    then show ?thesis
      using Cons.IH[OF d] by (cases c) (simp_all add: a split: option.splits)
  qed
qed

lemma distinct_count_by_choice: "distinct (map fst (count_by_choice d rid now))"
  by (simp add: count_by_choice_def Let_def comp_def)

lemma map_of_count_by_choice:
  "(case map_of (count_by_choice d rid now) c of Some n \<Rightarrow> n | None \<Rightarrow> 0)
     = length (filter (\<lambda>(v, se). v_choice v = c) (joined_votes d rid now))"
proof (cases "c \<in> (\<lambda>(v, se). v_choice v) ` set (joined_votes d rid now)")
  case True
  then show ?thesis
    by (simp add: count_by_choice_def Let_def map_of_map_restrict)
next
  case False
  then have "filter (\<lambda>(v, se). v_choice v = c) (joined_votes d rid now) = []"
    by (auto simp: filter_empty_conv)
  then show ?thesis using False
    by (simp add: count_by_choice_def Let_def map_of_map_restrict)
qed

lemma length_filter_product:
  "length (filter (\<lambda>(v, se). P v \<and> Q v se) (List.product vs ss))
     = sum_list (map (\<lambda>v. length (filter (Q v) ss)) (filter P vs))"
proof (induction vs)
  case Nil
  show ?case by simp
next
  case (Cons v vs)
  have "length (filter (\<lambda>(v, se). P v \<and> Q v se) (map (Pair v) ss))
          = (if P v then length (filter (Q v) ss) else 0)"
    by (simp add: filter_map comp_def)
  then show ?case using Cons.IH by simp
qed

lemma joined_count_spec_tally:
  "length (filter (\<lambda>(v, se). v_choice v = c) (joined_votes d rid now)) = spec_tally d rid now c"
proof -
  have "filter (\<lambda>(v, se). v_choice v = c) (joined_votes d rid now)
          = filter (\<lambda>(v, se). (v_room_id v = rid \<and> v_choice v = c)
                      \<and> (s_session_id se = v_session_id v \<and> now \<le> s_expire se))
              (List.product (vote_tbl d) (session_tbl d))"
    unfolding joined_votes_def filter_filter
    by (rule filter_cong) auto
  then show ?thesis
    by (simp only: length_filter_product spec_tally_def)
qed

text \<open>
  Claim C3. When the query does not fail, \<open>GetStatus\<close> returns a status whose three
  counts are, for each choice, the number of votes of the room with that choice, each
  counted for the rows of \<open>session\<close> with its session id whose \<open>expire\<close> is not before the
  clock: a vote whose session has expired adds nothing, though its row is in the table.
  When no vote of the room has a session that is still valid, the three counts are 0 and
  no error is returned.
\<close>

theorem tally_counts_live_sessions:
  "\<exists>rs. GetStatus clk now None rst rid = Inr rs
     \<and> Hot_count rs = spec_tally (tx rst) rid now Hot
     \<and> Comfort_count rs = spec_tally (tx rst) rid now Comfort
     \<and> Cold_count rs = spec_tally (tx rst) rid now Cold
     \<and> ((\<forall>v \<in> set (vote_tbl (tx rst)). \<forall>se \<in> set (session_tbl (tx rst)).
            v_room_id v = rid \<and> s_session_id se = v_session_id v \<longrightarrow> s_expire se < now)
          \<longrightarrow> Hot_count rs = 0 \<and> Comfort_count rs = 0 \<and> Cold_count rs = 0)"
proof -
  let ?rs0 = "\<lparr>RoomID = rid,
              Sensors = (if \<not> snd (getSensorStatusFromCache (rsm rst) clk rid) then []
                         else fst (getSensorStatusFromCache (rsm rst) clk rid)),
              Hot_count = 0, Comfort_count = 0, Cold_count = 0\<rparr>"
  let ?rows = "count_by_choice (tx rst) rid now"
  let ?rs = "scan_counts ?rs0 ?rows"
  have g: "GetStatus clk now None rst rid = Inr ?rs"
    by (simp add: GetStatus_def Query_def Let_def split: prod.splits)
  have h: "Hot_count ?rs = spec_tally (tx rst) rid now Hot"
    using map_of_count_by_choice[of "tx rst" rid now Hot]
    by (simp add: scan_counts_Hot[OF distinct_count_by_choice] joined_count_spec_tally
        split: option.splits)
  have c: "Comfort_count ?rs = spec_tally (tx rst) rid now Comfort"
    using map_of_count_by_choice[of "tx rst" rid now Comfort]
    by (simp add: scan_counts_Comfort[OF distinct_count_by_choice] joined_count_spec_tally
        split: option.splits)
  have k: "Cold_count ?rs = spec_tally (tx rst) rid now Cold"
    using map_of_count_by_choice[of "tx rst" rid now Cold]
    by (simp add: scan_counts_Cold[OF distinct_count_by_choice] joined_count_spec_tally
        split: option.splits)
  have z: "spec_tally (tx rst) rid now ch = 0"
    if "\<forall>v \<in> set (vote_tbl (tx rst)). \<forall>se \<in> set (session_tbl (tx rst)).
            v_room_id v = rid \<and> s_session_id se = v_session_id v \<longrightarrow> s_expire se < now" for ch
    using that by (fastforce simp: spec_tally_def filter_empty_conv)
  show ?thesis using g h c k z by simp
qed

theorem tally_counts_live_sessions_witness:
  "(\<exists>rs. GetStatus (\<lambda>_. 50) 50 None ex_rst_votes 1 = Inr rs
      \<and> Hot_count rs = 1 \<and> Comfort_count rs = 0 \<and> Cold_count rs = 0)
   \<and> map v_choice (select_votes ex_db_votes ''B'' 1) = [Cold]
   \<and> (\<exists>rs. GetStatus (\<lambda>_. 200) 200 None ex_rst_votes 1 = Inr rs
      \<and> Hot_count rs = 0 \<and> Comfort_count rs = 0 \<and> Cold_count rs = 0)
   \<and> (\<exists>rs. GetStatus (\<lambda>_. 50) 50 None ex_rst_votes 2 = Inr rs
      \<and> Hot_count rs = 0 \<and> Comfort_count rs = 0 \<and> Cold_count rs = 0)"
proof -
  have t: "tx ex_rst_votes = ex_db_votes" by (simp add: ex_rst_votes_def)
  have 1: "spec_tally ex_db_votes 1 50 Hot = 1" "spec_tally ex_db_votes 1 50 Comfort = 0"
    "spec_tally ex_db_votes 1 50 Cold = 0"
    by (simp_all add: spec_tally_def ex_db_votes_def)
  have 2: "\<forall>v \<in> set (vote_tbl ex_db_votes). \<forall>se \<in> set (session_tbl ex_db_votes).
             v_room_id v = 1 \<and> s_session_id se = v_session_id v \<longrightarrow> s_expire se < 200"
    "\<forall>v \<in> set (vote_tbl ex_db_votes). \<forall>se \<in> set (session_tbl ex_db_votes).
             v_room_id v = 2 \<and> s_session_id se = v_session_id v \<longrightarrow> s_expire se < 50"
    by (simp_all add: ex_db_votes_def)
  have 3: "map v_choice (select_votes ex_db_votes ''B'' 1) = [Cold]"
    by (simp add: select_votes_def ex_db_votes_def)
  show ?thesis
    using tally_counts_live_sessions [of "\<lambda>_. 50" 50 ex_rst_votes 1]
      tally_counts_live_sessions [of "\<lambda>_. 200" 200 ex_rst_votes 1]
      tally_counts_live_sessions [of "\<lambda>_. 50" 50 ex_rst_votes 2]
      1 2 3
    by (simp add: t) blast
qed

section \<open>The refresh cycle\<close>

lemma updateSensorStatus_frame:
  "thingworx (snd (updateSensorStatus env m rid name)) = thingworx m"
  "db (snd (updateSensorStatus env m rid name)) = db m"
  by (simp_all add: updateSensorStatus_outcome split: sum.splits)

lemma updateSensorStatus_error:
  "fst (updateSensorStatus env m rid name) =
     (case fetch_outcome env (thingworx m) name of Inl err \<Rightarrow> Some err | Inr stat \<Rightarrow> None)"
  by (simp add: updateSensorStatus_outcome split: sum.splits)

lemma lookup_after_update_same:
  "fetch_outcome env (thingworx m) name = Inr stat \<Longrightarrow> IsConnected stat \<Longrightarrow>
   cache_lookup (snd (updateSensorStatus env m rid name)) rid name = Some stat"
  by (simp add: updateSensorStatus_outcome cache_lookup_def)

lemma lookup_after_update_other:
  "(r, n) \<noteq> (rid, name) \<Longrightarrow>
   cache_lookup (snd (updateSensorStatus env m r n)) rid name = cache_lookup m rid name"
  by (auto simp: updateSensorStatus_outcome cache_lookup_def split: sum.splits option.splits)

text \<open>The errors of a run are those of its rows, in the order of the run.\<close>

lemma run_updates_errors:
  "fst (run_updates fe rows errs m) = errs @ row_errors fe (thingworx m) rows"
proof (induction rows arbitrary: errs m)
  case Nil
  show ?case by (simp add: row_errors_def)
next
  case (Cons a rows)
  obtain rid name where a: "a = (rid, name)" by (cases a)
  obtain e m1 where u: "updateSensorStatus (fe rid name) m rid name = (e, m1)"
    by (cases "updateSensorStatus (fe rid name) m rid name")
  have tw: "thingworx m1 = thingworx m"
    using updateSensorStatus_frame(1)[of "fe rid name" m rid name] u by simp
  have e: "e = (case fetch_outcome (fe rid name) (thingworx m) name of
                  Inl err \<Rightarrow> Some err | Inr stat \<Rightarrow> None)"
    using updateSensorStatus_error[of "fe rid name" m rid name] u by simp
  show ?case
    using Cons.IH[of _ m1] tw
    by (simp add: a u e row_errors_def split: sum.splits)
qed

text \<open>
  A connected reading of a row stays in the cache to the end of the run: the other rows
  write other entries, and a second row of the same sensor writes the same reading.
\<close>

lemma run_updates_keeps:
  assumes "fetch_outcome (fe rid name) (thingworx m) name = Inr stat"
    and "IsConnected stat"
    and "cache_lookup m rid name = Some stat \<or> (rid, name) \<in> set rows"
  shows "cache_lookup (snd (run_updates fe rows errs m)) rid name = Some stat"
  using assms
proof (induction rows arbitrary: errs m)
  case Nil
  then show ?case by simp
next
  case (Cons a rows)
  obtain r n where a: "a = (r, n)" by (cases a)
  obtain e m1 where u: "updateSensorStatus (fe r n) m r n = (e, m1)"
    by (cases "updateSensorStatus (fe r n) m r n")
  have tw: "thingworx m1 = thingworx m"
    using updateSensorStatus_frame(1)[of "fe r n" m r n] u by simp
  have m1: "cache_lookup m1 rid name = Some stat \<or> (rid, name) \<in> set rows"
  proof (cases "(r, n) = (rid, name)")
    case True
    then show ?thesis
      using lookup_after_update_same[OF Cons.prems(1,2), of rid] u by simp
  next
    case False
    then have "cache_lookup m1 rid name = cache_lookup m rid name"
      using lookup_after_update_other[of r n rid name "fe r n" m] u by simp
    then show ?thesis using Cons.prems(3) False by (auto simp: a)
  qed
  have "cache_lookup (snd (run_updates fe rows errs' m1)) rid name = Some stat" for errs'
    by (rule Cons.IH) (use Cons.prems(1,2) tw m1 in simp_all)
  then show ?case by (cases e) (simp_all add: a u)
qed

lemma mset_row_errors:
  assumes "mset rows' = mset rows"
  shows "mset (row_errors fe tw rows') = mset (row_errors fe tw rows)"
proof -
  have "mset (row_errors fe tw xs) =
          (\<Sum>x \<in># mset xs. mset (case x of (rid, name) \<Rightarrow>
              case fetch_outcome (fe rid name) tw name of Inl err \<Rightarrow> [err] | Inr stat \<Rightarrow> []))"
    for xs
    by (induction xs) (simp_all add: row_errors_def)
  then show ?thesis using assms by simp
qed

lemma ex_row_errors:
  "row_errors ex_fetch ex_tw (thing_tbl (db ex_m)) = [HttpError ''timeout'']"
  by (simp add: row_errors_def ex_fetch_def ex_fetch_outcome ex_fetch_outcome_down ex_m_def
      ex_db_def)

text \<open>
  Claim C8, as stated, fails in its second half: when the sensors cannot be enumerated the
  cycle does not end. \<open>updateAllSensorStatuses\<close> returns the one error, and \<open>cacheUpdater\<close>
  goes on to \<open>cleanUpExpiredSessions\<close>: here the transaction of the enumeration cannot be
  begun, and the same cycle still deletes the expired session.
\<close>

theorem enumeration_failure_cleanup_still_runs:
  "ua_begin_fault (update_part (ex_cycle_env (Some ''connection lost'') TickC))
     = Some ''connection lost''
   \<and> session_tbl (db ex_m) = [\<lparr>s_session_id = ''B'', s_expire = 5\<rparr>]
   \<and> session_tbl (db (fst (cycle_body (ex_cycle_env (Some ''connection lost'') TickC)
                             (ex_m, [])))) = []
   \<and> snd (cycle_body (ex_cycle_env (Some ''connection lost'') TickC) (ex_m, []))
       = [LogText ''update all sensor statuses'', LogError (SqlError ''connection lost''),
          LogText ''clean up expired sessions'']"
  by (simp add: cycle_body_def ex_cycle_env_def ex_update_env_def ex_cleanup_env_def
      updateAllSensorStatuses_def cleanUpExpiredSessions_def ex_m_def ex_db_def)

text \<open>
  Claim C8, amended. Let the goroutines run in any order. When the sensors are enumerated,
  the list returned holds exactly the errors of the sensors that failed, and every sensor
  whose fetch gave a connected reading has that reading in the cache afterwards, whatever
  the other sensors did. When the enumeration fails, no sensor is fetched: the list holds
  that one error and the cache is as before; the cycle then goes on with the cleanup of
  the sessions, on the manager as it was. When the ticker's case is taken, the next
  iteration runs the whole body again, enumeration included.
\<close>

theorem refresh_collects_errors:
  assumes "mset (sched env (thing_tbl (db m))) = mset (thing_tbl (db m))"
  shows "(ua_begin_fault env = None \<and> ua_query_fault env = None \<longrightarrow>
            mset (fst (updateAllSensorStatuses env m))
              = mset (row_errors (fetch env) (thingworx m) (thing_tbl (db m)))
            \<and> (\<forall>(rid, name) \<in> set (thing_tbl (db m)). \<forall>stat.
                  fetch_outcome (fetch env rid name) (thingworx m) name = Inr stat
                  \<and> IsConnected stat
                  \<longrightarrow> cache_lookup (snd (updateAllSensorStatuses env m)) rid name = Some stat))
         \<and> (\<forall>e. ua_begin_fault env = Some e
                  \<or> (ua_begin_fault env = None \<and> ua_query_fault env = Some e)
               \<longrightarrow> updateAllSensorStatuses env m = ([SqlError e], m)
                   \<and> (\<forall>cenv lg. update_part cenv = env \<longrightarrow>
                         fst (cycle_body cenv (m, lg))
                           = snd (cleanUpExpiredSessions (cleanup_part cenv) m)))
         \<and> (\<forall>cenv envs st. selected cenv = TickC \<longrightarrow>
               cacheUpdater_loop (cenv # envs) st = cacheUpdater_loop envs (cycle_body cenv st))"
proof (intro conjI impI allI)
  assume ok: "ua_begin_fault env = None \<and> ua_query_fault env = None"
  then have u: "updateAllSensorStatuses env m
                = run_updates (fetch env) (sched env (thing_tbl (db m))) [] m"
    by (simp add: updateAllSensorStatuses_def)
  show "mset (fst (updateAllSensorStatuses env m))
          = mset (row_errors (fetch env) (thingworx m) (thing_tbl (db m)))"
    using mset_row_errors[OF assms] by (simp add: u run_updates_errors)
  show "\<forall>(rid, name) \<in> set (thing_tbl (db m)). \<forall>stat.
          fetch_outcome (fetch env rid name) (thingworx m) name = Inr stat \<and> IsConnected stat
          \<longrightarrow> cache_lookup (snd (updateAllSensorStatuses env m)) rid name = Some stat"
  proof (intro ballI, clarify)
    fix rid name stat
    assume "(rid, name) \<in> set (thing_tbl (db m))"
      and f: "fetch_outcome (fetch env rid name) (thingworx m) name = Inr stat"
      and c: "IsConnected stat"
    then have "(rid, name) \<in> set (sched env (thing_tbl (db m)))"
      using mset_eq_setD[OF assms] by simp
    then show "cache_lookup (snd (updateAllSensorStatuses env m)) rid name = Some stat"
      using run_updates_keeps
        [of "fetch env" rid name m stat "sched env (thing_tbl (db m))" "[]"] f c
      by (simp add: u)
  qed
next
  fix e
  assume "ua_begin_fault env = Some e \<or> (ua_begin_fault env = None \<and> ua_query_fault env = Some e)"
  then show "updateAllSensorStatuses env m = ([SqlError e], m)"
    by (auto simp: updateAllSensorStatuses_def)
next
  fix e and cenv :: cycle_env and lg
  assume "ua_begin_fault env = Some e \<or> (ua_begin_fault env = None \<and> ua_query_fault env = Some e)"
    and "update_part cenv = env"
  then show "fst (cycle_body cenv (m, lg)) = snd (cleanUpExpiredSessions (cleanup_part cenv) m)"
    by (auto simp: cycle_body_def updateAllSensorStatuses_def Let_def split: prod.splits)
next
  fix cenv :: cycle_env and envs st
  assume "selected cenv = TickC"
  then show "cacheUpdater_loop (cenv # envs) st = cacheUpdater_loop envs (cycle_body cenv st)"
    by (simp add: Let_def)
qed

theorem refresh_collects_errors_witness:
  "mset (sched (ex_update_env None) (thing_tbl (db ex_m))) = mset (thing_tbl (db ex_m))
   \<and> thing_tbl (db ex_m) = [(1, ''S1''), (1, ''S2'')]
   \<and> mset (fst (updateAllSensorStatuses (ex_update_env None) ex_m)) = {#HttpError ''timeout''#}
   \<and> cache_lookup (snd (updateAllSensorStatuses (ex_update_env None) ex_m)) 1 ''S1''
       = Some (ex_stat 990)
   \<and> updateAllSensorStatuses (ex_update_env (Some ''connection lost'')) ex_m
       = ([SqlError ''connection lost''], ex_m)"
proof -
  have t: "thing_tbl (db ex_m) = [(1, ''S1''), (1, ''S2'')]" "thingworx ex_m = ex_tw"
    by (simp_all add: ex_m_def ex_db_def)
  have p: "mset (sched (ex_update_env flt) (thing_tbl (db ex_m))) = mset (thing_tbl (db ex_m))"
    for flt
    by (simp add: ex_update_env_def)
  have f: "fetch (ex_update_env flt) = ex_fetch" "ua_begin_fault (ex_update_env flt) = flt"
    "ua_query_fault (ex_update_env flt) = None" for flt
    by (simp_all add: ex_update_env_def)
  have o: "fetch_outcome (ex_fetch 1 ''S1'') ex_tw ''S1'' = Inr (ex_stat 990)"
    "IsConnected (ex_stat 990)"
    by (simp_all add: ex_fetch_def ex_fetch_outcome ex_stat_def)
  have "mset (fst (updateAllSensorStatuses (ex_update_env None) ex_m))
          = {#HttpError ''timeout''#}"
    using refresh_collects_errors [OF p [of None], THEN conjunct1]
    by (simp add: f t(2) ex_row_errors)
  moreover have "cache_lookup (snd (updateAllSensorStatuses (ex_update_env None) ex_m)) 1 ''S1''
          = Some (ex_stat 990)"
    using refresh_collects_errors [OF p [of None], THEN conjunct1] o
    by (simp add: f t)
  moreover have "updateAllSensorStatuses (ex_update_env (Some ''connection lost'')) ex_m
          = ([SqlError ''connection lost''], ex_m)"
    using refresh_collects_errors [OF p [of "Some ''connection lost''"]]
    by (simp add: f)
  ultimately show ?thesis using p [of None] t(1) by simp
qed

text \<open>The runs of the loop that return.\<close>

lemma cacheUpdater_loop_Some_iff:
  "cacheUpdater_loop envs st = Some st' \<longleftrightarrow>
     (\<exists>ticks final rest. envs = ticks @ final # rest
        \<and> (\<forall>e \<in> set ticks. selected e = TickC) \<and> selected final = CtxDone
        \<and> st' = fold cycle_body (ticks @ [final]) st)"
proof (induction envs arbitrary: st)
  case Nil
  show ?case by simp
next
  case (Cons env envs)
  show ?case
  proof (cases "selected env")
    case CtxDone
    have "(\<exists>ticks final rest. env # envs = ticks @ final # rest
        \<and> (\<forall>e \<in> set ticks. selected e = TickC) \<and> selected final = CtxDone
        \<and> st' = fold cycle_body (ticks @ [final]) st) \<longleftrightarrow> st' = cycle_body env st"
    proof
      assume "\<exists>ticks final rest. env # envs = ticks @ final # rest
        \<and> (\<forall>e \<in> set ticks. selected e = TickC) \<and> selected final = CtxDone
        \<and> st' = fold cycle_body (ticks @ [final]) st"
      then obtain ticks final rest where d: "env # envs = ticks @ final # rest"
        and t: "\<forall>e \<in> set ticks. selected e = TickC"
        and s: "st' = fold cycle_body (ticks @ [final]) st" by blast
      have "ticks = []"
      proof (cases ticks)
        case (Cons x xs)
        then have "x = env" using d by simp
        then show ?thesis using t Cons CtxDone by simp
      qed simp
      then show "st' = cycle_body env st" using d s by simp
    next
      assume "st' = cycle_body env st"
      then have "env # envs = [] @ env # envs \<and> (\<forall>e \<in> set []. selected e = TickC)
          \<and> selected env = CtxDone \<and> st' = fold cycle_body ([] @ [env]) st"
        using CtxDone by simp
      then show "\<exists>ticks final rest. env # envs = ticks @ final # rest
        \<and> (\<forall>e \<in> set ticks. selected e = TickC) \<and> selected final = CtxDone
        \<and> st' = fold cycle_body (ticks @ [final]) st" by blast
    qed
    then show ?thesis using CtxDone by (auto simp: Let_def)
  next
    case TickC
    have "(\<exists>ticks final rest. env # envs = ticks @ final # rest
        \<and> (\<forall>e \<in> set ticks. selected e = TickC) \<and> selected final = CtxDone
        \<and> st' = fold cycle_body (ticks @ [final]) st) \<longleftrightarrow>
      (\<exists>ticks final rest. envs = ticks @ final # rest
        \<and> (\<forall>e \<in> set ticks. selected e = TickC) \<and> selected final = CtxDone
        \<and> st' = fold cycle_body (ticks @ [final]) (cycle_body env st))"
    proof
      assume "\<exists>ticks final rest. env # envs = ticks @ final # rest
        \<and> (\<forall>e \<in> set ticks. selected e = TickC) \<and> selected final = CtxDone
        \<and> st' = fold cycle_body (ticks @ [final]) st"
      then obtain ticks final rest where d: "env # envs = ticks @ final # rest"
        and t: "\<forall>e \<in> set ticks. selected e = TickC" and f: "selected final = CtxDone"
        and s: "st' = fold cycle_body (ticks @ [final]) st" by blast
      obtain ticks' where tk: "ticks = env # ticks'"
        using d f TickC by (cases ticks) auto
      then have "envs = ticks' @ final # rest \<and> (\<forall>e \<in> set ticks'. selected e = TickC)
          \<and> selected final = CtxDone
          \<and> st' = fold cycle_body (ticks' @ [final]) (cycle_body env st)"
        using d t f s by simp
      then show "\<exists>ticks final rest. envs = ticks @ final # rest
        \<and> (\<forall>e \<in> set ticks. selected e = TickC) \<and> selected final = CtxDone
        \<and> st' = fold cycle_body (ticks @ [final]) (cycle_body env st)" by blast
    next
      assume "\<exists>ticks final rest. envs = ticks @ final # rest
        \<and> (\<forall>e \<in> set ticks. selected e = TickC) \<and> selected final = CtxDone
        \<and> st' = fold cycle_body (ticks @ [final]) (cycle_body env st)"
      then obtain ticks final rest where d: "envs = ticks @ final # rest"
        and t: "\<forall>e \<in> set ticks. selected e = TickC" and f: "selected final = CtxDone"
        and s: "st' = fold cycle_body (ticks @ [final]) (cycle_body env st)" by blast
      have "env # envs = (env # ticks) @ final # rest
          \<and> (\<forall>e \<in> set (env # ticks). selected e = TickC) \<and> selected final = CtxDone
          \<and> st' = fold cycle_body ((env # ticks) @ [final]) st"
        using d t f s TickC by simp
      then show "\<exists>ticks final rest. env # envs = ticks @ final # rest
        \<and> (\<forall>e \<in> set ticks. selected e = TickC) \<and> selected final = CtxDone
        \<and> st' = fold cycle_body (ticks @ [final]) st" by blast
    qed
    then show ?thesis using TickC Cons.IH[of "cycle_body env st"] by (simp add: Let_def)
  qed
qed

lemma cycle_body_manager:
  "fst (cycle_body env (m, lg)) =
     snd (cleanUpExpiredSessions (cleanup_part env)
            (snd (updateAllSensorStatuses (update_part env) m)))"
  by (simp add: cycle_body_def Let_def split: prod.splits)

text \<open>
  Claim C9. \<open>cacheUpdater\<close> returns exactly in the runs in which some iteration's
  \<open>select\<close> takes the case of \<open>ctx.Done()\<close>, at the first such iteration, and what it leaves
  is the result of the whole bodies of all iterations up to and including that one; the
  body of an iteration is the complete \<open>updateAllSensorStatuses\<close> (which waits for every
  goroutine it started) followed by \<open>cleanUpExpiredSessions\<close>, and neither takes the
  context: the only place where the cancellation is looked at is the \<open>select\<close> after them.
\<close>

theorem cacheUpdater_returns_between_cycles:
  "(cacheUpdater envs m = Some st \<longleftrightarrow>
      (\<exists>ticks final rest. envs = ticks @ final # rest
         \<and> (\<forall>e \<in> set ticks. selected e = TickC) \<and> selected final = CtxDone
         \<and> st = fold cycle_body (ticks @ [final]) (m, [LogText ''starting cacheUpdater''])))
   \<and> (\<forall>env m0 lg. fst (cycle_body env (m0, lg)) =
         snd (cleanUpExpiredSessions (cleanup_part env)
                (snd (updateAllSensorStatuses (update_part env) m0))))"
  by (simp add: cacheUpdater_def cacheUpdater_loop_Some_iff cycle_body_manager)

theorem cacheUpdater_returns_between_cycles_witness:
  "cacheUpdater [ex_cycle_env None TickC, ex_cycle_env None CtxDone, ex_cycle_env None TickC] ex_m
     = Some (fold cycle_body [ex_cycle_env None TickC, ex_cycle_env None CtxDone]
              (ex_m, [LogText ''starting cacheUpdater'']))
   \<and> selected (ex_cycle_env None TickC) = TickC
   \<and> selected (ex_cycle_env None CtxDone) = CtxDone
   \<and> cacheUpdater [ex_cycle_env None TickC, ex_cycle_env None TickC] ex_m = None"
proof -
  have s: "selected (ex_cycle_env None TickC) = TickC"
    "selected (ex_cycle_env None CtxDone) = CtxDone"
    by (simp_all add: ex_cycle_env_def)
  have "[ex_cycle_env None TickC, ex_cycle_env None CtxDone, ex_cycle_env None TickC]
          = [ex_cycle_env None TickC] @ ex_cycle_env None CtxDone # [ex_cycle_env None TickC]
        \<and> (\<forall>e \<in> set [ex_cycle_env None TickC]. selected e = TickC)
        \<and> selected (ex_cycle_env None CtxDone) = CtxDone
        \<and> fold cycle_body [ex_cycle_env None TickC, ex_cycle_env None CtxDone]
              (ex_m, [LogText ''starting cacheUpdater''])
          = fold cycle_body ([ex_cycle_env None TickC] @ [ex_cycle_env None CtxDone])
              (ex_m, [LogText ''starting cacheUpdater''])"
    using s by simp
  then have "cacheUpdater
      [ex_cycle_env None TickC, ex_cycle_env None CtxDone, ex_cycle_env None TickC] ex_m
     = Some (fold cycle_body [ex_cycle_env None TickC, ex_cycle_env None CtxDone]
              (ex_m, [LogText ''starting cacheUpdater'']))"
    using cacheUpdater_returns_between_cycles
      [THEN conjunct1, THEN iffD2,
       of "[ex_cycle_env None TickC, ex_cycle_env None CtxDone, ex_cycle_env None TickC]"
         "fold cycle_body [ex_cycle_env None TickC, ex_cycle_env None CtxDone]
              (ex_m, [LogText ''starting cacheUpdater''])" ex_m]
    by blast
  moreover have "cacheUpdater [ex_cycle_env None TickC, ex_cycle_env None TickC] ex_m = None"
    by (simp add: cacheUpdater_def s)
  ultimately show ?thesis using s by simp
qed

end
